theory Spec2Isabelle
  imports Main "HOL-Library.Sublist" "HOL-Library.AList"
begin

section \<open>Strings of the Go standard library used by the discovery package\<close>

text \<open>
  \<^verbatim>\<open>fmt.Sprintf("%d", n)\<close> on a Go \<^verbatim>\<open>int\<close>: the decimal digits, most significant
  first, with a leading minus sign for a negative number.
\<close>

definition digit_char :: "nat \<Rightarrow> char" where
  "digit_char d = char_of (48 + d)"

function dec_nat :: "nat \<Rightarrow> string" where
  "dec_nat n = (if n < 10 then [digit_char n] else dec_nat (n div 10) @ [digit_char (n mod 10)])"
  by pat_completeness auto
termination
  by (relation "measure id") auto

declare dec_nat.simps [simp del]

definition fmt_d :: "int \<Rightarrow> string" where
  "fmt_d i = (if i < 0 then CHR ''-'' # dec_nat (nat (- i)) else dec_nat (nat i))"

text \<open>
  \<^verbatim>\<open>path.Clean\<close> of the Go standard library, byte by byte as the library writes it.
  The library's \<^verbatim>\<open>lazybuf\<close> is an output buffer of \<^verbatim>\<open>out.w\<close> bytes; here it is the
  string \<open>out\<close>, and \<^verbatim>\<open>out.w\<close> is its length. \<open>p\<close> is the unread rest of the path
  (\<^verbatim>\<open>path[r:]\<close>).
\<close>

definition at_end_or_slash :: "string \<Rightarrow> bool" where
  "at_end_or_slash p = (case p of [] \<Rightarrow> True | c # _ \<Rightarrow> c = CHR ''/'')"

text \<open>
  The inner loop of the \<^verbatim>\<open>..\<close> case, after the first \<^verbatim>\<open>out.w--\<close>:
  \<^verbatim>\<open>for out.w > dotdot && out.index(out.w) != '/' { out.w-- }\<close>. The index stays
  inside the buffer, since \<open>w\<close> starts below its length and only decreases; the bound
  is written out.
\<close>

function backtrack :: "nat \<Rightarrow> string \<Rightarrow> nat \<Rightarrow> nat" where
  "backtrack dotdot out w =
     (if w > dotdot \<and> w < length out \<and> out ! w \<noteq> CHR ''/'' then backtrack dotdot out (w - 1) else w)"
  by pat_completeness auto
termination
  by (relation "measure (\<lambda>(dotdot, out, w). w)") auto

declare backtrack.simps [simp del]

function clean_loop :: "bool \<Rightarrow> nat \<Rightarrow> string \<Rightarrow> string \<Rightarrow> string" where
  "clean_loop rooted dotdot out [] = out"
| "clean_loop rooted dotdot out (c # p) =
     (if c = CHR ''/'' then clean_loop rooted dotdot out p
      else if c = CHR ''.'' \<and> at_end_or_slash p then clean_loop rooted dotdot out p
      else if c = CHR ''.'' \<and> (case p of [] \<Rightarrow> False | d # q \<Rightarrow> d = CHR ''.'' \<and> at_end_or_slash q) then
        (if length out > dotdot then
           clean_loop rooted dotdot (take (backtrack dotdot out (length out - 1)) out) (tl p)
         else if \<not> rooted then
           (let out' = (if length out > 0 then out @ ''/'' else out) @ ''..''
            in clean_loop rooted (length out') out' (tl p))
         else clean_loop rooted dotdot out (tl p))
      else
        (let out' = (if rooted \<and> length out \<noteq> 1 \<or> \<not> rooted \<and> length out \<noteq> 0
                     then out @ ''/'' else out)
         in clean_loop rooted dotdot
              (out' @ takeWhile (\<lambda>x. x \<noteq> CHR ''/'') (c # p))
              (dropWhile (\<lambda>x. x \<noteq> CHR ''/'') (c # p))))"
  by pat_completeness auto
termination
proof (relation "measure (\<lambda>(rooted, dotdot, out, p). length p)", goal_cases)
  case 1
  show ?case by simp
next
  case (2 rooted dotdot out c p)
  show ?case by simp
next
  case (3 rooted dotdot out c p)
  show ?case by simp
next
  case (4 rooted dotdot out c p)
  show ?case by simp
next
  case (5 rooted dotdot out c p)
  show ?case by simp
next
  case (6 rooted dotdot out c p)
  show ?case by simp
next
  case (7 rooted dotdot out c p)
  have "length (dropWhile (\<lambda>x. x \<noteq> CHR ''/'') p) \<le> length p"
    by (rule length_dropWhile_le)
  with 7(1) show ?case by simp
qed

definition Clean :: "string \<Rightarrow> string" where
  "Clean path =
     (case path of
        [] \<Rightarrow> ''.''
      | c # p \<Rightarrow>
          (let rooted = (c = CHR ''/'');
               out = (if rooted then clean_loop True 1 ''/'' p else clean_loop False 0 [] path)
           in if out = [] then ''.'' else out))"

text \<open>
  \<^verbatim>\<open>path.Join\<close>: the elements are joined with slashes, empty elements before the first
  non-empty one are dropped, and the result is cleaned; all elements empty gives the
  empty string.
\<close>

definition join_step :: "string \<Rightarrow> string \<Rightarrow> string" where
  "join_step buf e =
     (if length buf > 0 \<or> e \<noteq> [] then (if length buf > 0 then buf @ ''/'' else buf) @ e else buf)"

definition Join :: "string list \<Rightarrow> string" where
  "Join elem =
     (if sum_list (map length elem) = 0 then []
      else Clean (foldl join_step [] elem))"

section \<open>The lease-store registry: keys\<close>

text \<open>\<^verbatim>\<open>EtcdRegistry.buildServiceKey\<close> and \<^verbatim>\<open>buildServicePrefix\<close> (etcd.go), with the
  registry's \<^verbatim>\<open>namespace\<close> field as first argument.\<close>

definition buildServiceKey :: "string \<Rightarrow> string \<Rightarrow> string \<Rightarrow> int \<Rightarrow> string" where
  "buildServiceKey namespace serviceName address port =
     Join [namespace, ''services'', serviceName, address @ '':'' @ fmt_d port]"

definition buildServicePrefix :: "string \<Rightarrow> string \<Rightarrow> string" where
  "buildServicePrefix namespace serviceName =
     Join [namespace, ''services'', serviceName] @ ''/''"

text \<open>
  The inputs on which cleaning changes nothing. A plain segment is a non-empty path
  element without a slash that is neither \<^verbatim>\<open>.\<close> nor \<^verbatim>\<open>..\<close>; a plain relative
  path is one or more plain segments separated by single slashes; a namespace is
  well-formed when it is a plain relative path, optionally after one leading slash
  (\<^verbatim>\<open>/grpc-kit\<close>, \<^verbatim>\<open>grpc\<close>, \<^verbatim>\<open>/test\<close>).
\<close>

definition plain_seg :: "string \<Rightarrow> bool" where
  "plain_seg s = (s \<noteq> [] \<and> CHR ''/'' \<notin> set s \<and> s \<noteq> ''.'' \<and> s \<noteq> ''..'')"

function plain_rel :: "string \<Rightarrow> bool" where
  "plain_rel p =
     (plain_seg (takeWhile (\<lambda>x. x \<noteq> CHR ''/'') p) \<and>
      (case dropWhile (\<lambda>x. x \<noteq> CHR ''/'') p of [] \<Rightarrow> True | c # q \<Rightarrow> plain_rel q))"
  by pat_completeness auto
termination
proof (relation "measure length", goal_cases)
  case 1
  show ?case by simp
next
  case (2 p c q)
  have "length (dropWhile (\<lambda>x. x \<noteq> CHR ''/'') p) \<le> length p"
    by (rule length_dropWhile_le)
  with 2 show ?case by simp
qed

declare plain_rel.simps [simp del]

definition namespace_ok :: "string \<Rightarrow> bool" where
  "namespace_ok ns =
     (case ns of [] \<Rightarrow> False | c # p \<Rightarrow> if c = CHR ''/'' then plain_rel p else plain_rel ns)"


text \<open>The slash that \<open>clean_loop\<close> writes before a real path element
  (\<^verbatim>\<open>if rooted && out.w != 1 || !rooted && out.w != 0\<close>).\<close>

definition sep :: "bool \<Rightarrow> string \<Rightarrow> string" where
  "sep rooted out = (if rooted \<and> length out \<noteq> 1 \<or> \<not> rooted \<and> length out \<noteq> 0 then ''/'' else [])"

section \<open>Service records, errors and the log\<close>

text \<open>\<^verbatim>\<open>ServiceInfo\<close> (etcd.go). \<^verbatim>\<open>Metadata\<close> is a Go map from string to string.\<close>

record ServiceInfo =
  Name :: string
  Address :: string
  Port :: int
  Metadata :: "(string \<times> string) list"

text \<open>
  A Go \<^verbatim>\<open>error\<close> is its message; \<^verbatim>\<open>fmt.Errorf("...: %w", err)\<close> puts the wrapped
  message after the prefix. A method returning \<^verbatim>\<open>error\<close> returns \<open>None\<close> for
  \<^verbatim>\<open>nil\<close>; a method returning a value and an error returns \<open>Inl\<close> the error or
  \<open>Inr\<close> the value. The zap logger is the list of entries written so far (level and
  message; the structured fields are left out).
\<close>

type_synonym error = string

datatype level = DebugLevel | InfoLevel | WarnLevel | ErrorLevel

type_synonym logger = "(level \<times> string) list"

definition log_to :: "logger \<Rightarrow> level \<Rightarrow> string \<Rightarrow> logger" where
  "log_to lg lv msg = lg @ [(lv, msg)]"

section \<open>The lease store behind \<^verbatim>\<open>EtcdRegistry\<close>\<close>

text \<open>
  The etcd cluster as the \<^verbatim>\<open>clientv3\<close> calls of etcd.go see it: keys with a value and
  the lease they are attached to (\<open>0\<close> for none), the leases granted and not yet revoked,
  the identifier the next \<^verbatim>\<open>Grant\<close> hands out, and the calls that currently fail
  (cluster unreachable, context expired). A stored value is either the JSON encoding of a
  \<^verbatim>\<open>ServiceInfo\<close>, which \<^verbatim>\<open>json.Unmarshal\<close> reads back, or other bytes, on which it
  fails. Lease expiry by time is not part of the model: a lease lives until it is revoked.
  A range query returns the keys in the order of the store, and \<^verbatim>\<open>Grant\<close> hands out
  consecutive identifiers.
\<close>

datatype etcd_value = Encoded ServiceInfo | Raw string

datatype etcd_op = OpGrant | OpPut | OpKeepAlive | OpRevoke | OpDelete | OpGet

record etcd =
  kvs :: "(string \<times> etcd_value \<times> int) list"
  leases :: "int list"
  next_lease :: int
  failing :: "etcd_op list"

definition unavailable :: error where
  "unavailable = ''etcdserver: request timed out''"

definition lease_not_found :: error where
  "lease_not_found = ''etcdserver: requested lease not found''"

definition Grant :: "int \<Rightarrow> etcd \<Rightarrow> (error + int) \<times> etcd" where
  "Grant ttl s =
     (if OpGrant \<in> set (failing s) then (Inl unavailable, s)
      else (Inr (next_lease s),
            s\<lparr>leases := next_lease s # leases s, next_lease := next_lease s + 1\<rparr>))"

definition Put :: "string \<Rightarrow> etcd_value \<Rightarrow> int \<Rightarrow> etcd \<Rightarrow> error option \<times> etcd" where
  "Put k v l s =
     (if OpPut \<in> set (failing s) then (Some unavailable, s)
      else if l \<noteq> 0 \<and> l \<notin> set (leases s) then (Some lease_not_found, s)
      else (None, s\<lparr>kvs := filter (\<lambda>(k', _). k' \<noteq> k) (kvs s) @ [(k, v, l)]\<rparr>))"

definition KeepAlive :: "int \<Rightarrow> etcd \<Rightarrow> error option" where
  "KeepAlive l s = (if OpKeepAlive \<in> set (failing s) then Some unavailable else None)"

definition Revoke :: "int \<Rightarrow> etcd \<Rightarrow> error option \<times> etcd" where
  "Revoke l s =
     (if OpRevoke \<in> set (failing s) then (Some unavailable, s)
      else if l \<notin> set (leases s) then (Some lease_not_found, s)
      else (None, s\<lparr>kvs := filter (\<lambda>(_, _, l'). l' \<noteq> l) (kvs s),
                     leases := removeAll l (leases s)\<rparr>))"

definition Delete :: "string \<Rightarrow> etcd \<Rightarrow> error option \<times> etcd" where
  "Delete k s =
     (if OpDelete \<in> set (failing s) then (Some unavailable, s)
      else (None, s\<lparr>kvs := filter (\<lambda>(k', _). k' \<noteq> k) (kvs s)\<rparr>))"

definition Get_WithPrefix :: "string \<Rightarrow> etcd \<Rightarrow> error + (string \<times> etcd_value \<times> int) list" where
  "Get_WithPrefix p s =
     (if OpGet \<in> set (failing s) then Inl unavailable
      else Inr (filter (\<lambda>(k, _). prefix p k) (kvs s)))"

section \<open>\<^verbatim>\<open>EtcdRegistry\<close> (etcd.go)\<close>

text \<open>
  The registry object; its \<^verbatim>\<open>client\<close> field stands for the cluster the client talks
  to, so a method returns the registry with the cluster and the log as it left them.
\<close>

record EtcdRegistry =
  etcd_client :: etcd
  etcd_logger :: logger
  etcd_namespace :: string
  ttl :: int
  leaseID :: int

text \<open>\<^verbatim>\<open>NewEtcdRegistry\<close>, once the client is connected: TTL 30 seconds, no lease yet.\<close>

definition NewEtcdRegistry :: "etcd \<Rightarrow> string \<Rightarrow> logger \<Rightarrow> EtcdRegistry" where
  "NewEtcdRegistry c ns lg =
     \<lparr>etcd_client = c, etcd_logger = lg, etcd_namespace = ns, ttl = 30, leaseID = 0\<rparr>"

text \<open>
  \<^verbatim>\<open>Register\<close>: grant a lease, store its identifier in the registry, write the record
  under the lease, start the keep-alive. \<^verbatim>\<open>json.Marshal\<close> does not fail on a
  \<^verbatim>\<open>ServiceInfo\<close>. The goroutine that logs each renewal is left out.
\<close>

definition EtcdRegistry_Register :: "ServiceInfo \<Rightarrow> EtcdRegistry \<Rightarrow> error option \<times> EtcdRegistry" where
  "EtcdRegistry_Register service r =
     (case Grant (ttl r) (etcd_client r) of
        (Inl err, c1) \<Rightarrow> (Some (''failed to grant lease: '' @ err), r\<lparr>etcd_client := c1\<rparr>)
      | (Inr lease, c1) \<Rightarrow>
          (let r1 = r\<lparr>etcd_client := c1, leaseID := lease\<rparr>;
               data = Encoded service;
               key = buildServiceKey (etcd_namespace r1) (Name service) (Address service) (Port service)
           in case Put key data lease (etcd_client r1) of
                (Some err, c2) \<Rightarrow>
                  (Some (''failed to register service: '' @ err), r1\<lparr>etcd_client := c2\<rparr>)
              | (None, c2) \<Rightarrow>
                  (let r2 = r1\<lparr>etcd_client := c2\<rparr>
                   in case KeepAlive lease (etcd_client r2) of
                        Some kaerr \<Rightarrow> (Some (''failed to keep alive lease: '' @ kaerr), r2)
                      | None \<Rightarrow>
                          (None, r2\<lparr>etcd_logger :=
                                     log_to (etcd_logger r2) InfoLevel ''Service registered''\<rparr>))))"

text \<open>
  \<^verbatim>\<open>Deregister\<close>: revoke the lease stored in the registry if there is one (a failure
  is only logged), then delete the record's key.
\<close>

definition EtcdRegistry_Deregister :: "ServiceInfo \<Rightarrow> EtcdRegistry \<Rightarrow> error option \<times> EtcdRegistry" where
  "EtcdRegistry_Deregister service r =
     (let r1 = (if leaseID r \<noteq> 0 then
                  (case Revoke (leaseID r) (etcd_client r) of
                     (Some err, c1) \<Rightarrow>
                       r\<lparr>etcd_client := c1,
                         etcd_logger := log_to (etcd_logger r) WarnLevel ''Failed to revoke lease''\<rparr>
                   | (None, c1) \<Rightarrow> r\<lparr>etcd_client := c1\<rparr>)
                else r);
          key = buildServiceKey (etcd_namespace r1) (Name service) (Address service) (Port service)
      in case Delete key (etcd_client r1) of
           (Some err, c2) \<Rightarrow>
             (Some (''failed to deregister service: '' @ err), r1\<lparr>etcd_client := c2\<rparr>)
         | (None, c2) \<Rightarrow>
             (None, r1\<lparr>etcd_client := c2,
                       etcd_logger := log_to (etcd_logger r1) InfoLevel ''Service deregistered''\<rparr>))"

text \<open>
  \<^verbatim>\<open>Discover\<close>: list the keys under the service prefix and decode each value; a value
  that does not decode is logged and skipped.
\<close>

fun decode_kvs :: "(string \<times> etcd_value \<times> int) list \<Rightarrow> ServiceInfo list \<times> logger \<Rightarrow> ServiceInfo list \<times> logger" where
  "decode_kvs [] (services, lg) = (services, lg)"
| "decode_kvs ((k, Raw b, l) # rest) (services, lg) =
     decode_kvs rest (services, log_to lg WarnLevel ''Failed to unmarshal service info'')"
| "decode_kvs ((k, Encoded service, l) # rest) (services, lg) =
     decode_kvs rest (services @ [service], lg)"

definition EtcdRegistry_Discover :: "string \<Rightarrow> EtcdRegistry \<Rightarrow> (error + ServiceInfo list) \<times> EtcdRegistry" where
  "EtcdRegistry_Discover serviceName r =
     (let pre = buildServicePrefix (etcd_namespace r) serviceName
      in case Get_WithPrefix pre (etcd_client r) of
           Inl err \<Rightarrow> (Inl (''failed to discover services: '' @ err), r)
         | Inr resp \<Rightarrow>
             (case decode_kvs resp ([], etcd_logger r) of
                (services, lg) \<Rightarrow> (Inr services, r\<lparr>etcd_logger := lg\<rparr>)))"

section \<open>Watch streams\<close>

text \<open>
  The channel a \<^verbatim>\<open>Watch\<close> returns, as its receiver sees it: the snapshots sent on it
  so far, oldest first, and whether the sender has closed it. The channel has a buffer of
  one, so the first send in \<^verbatim>\<open>Watch\<close> itself never blocks. A later send is the
  \<^verbatim>\<open>select\<close> between \<^verbatim>\<open>ch <- services\<close> and \<^verbatim>\<open>ctx.Done()\<close>; which of the
  two happens is decided outside the code (by the receiver and by the caller's context)
  and is an input of the model.
\<close>

record WatchStream =
  ch :: "ServiceInfo list list"
  ch_closed :: bool

datatype select_outcome = Sent | CtxDone

text \<open>
  \<^verbatim>\<open>EtcdRegistry.Watch\<close>, up to the \<^verbatim>\<open>go\<close> statement: the current list is read
  with \<^verbatim>\<open>Discover\<close> and sent first.
\<close>

definition EtcdRegistry_Watch :: "string \<Rightarrow> EtcdRegistry \<Rightarrow> (error + WatchStream) \<times> EtcdRegistry" where
  "EtcdRegistry_Watch serviceName r =
     (case EtcdRegistry_Discover serviceName r of
        (Inl err, r1) \<Rightarrow> (Inl err, r1)
      | (Inr services, r1) \<Rightarrow> (Inr \<lparr>ch = [services], ch_closed = False\<rparr>, r1))"

text \<open>
  The goroutine of \<^verbatim>\<open>EtcdRegistry.Watch\<close>. It ranges over the client's watch channel;
  what arrives there is the input: the channel is closed, or a response arrives, with or
  without an error, while the cluster is in some state, and with some outcome of the
  \<^verbatim>\<open>select\<close> in case a snapshot is sent. With no input left the goroutine is
  blocked on the watch channel and the stream is as it was left.
\<close>

datatype etcd_watch_event = WatchChClosed | WatchResponse "error option" etcd select_outcome

fun EtcdRegistry_Watch_loop ::
  "string \<Rightarrow> etcd_watch_event list \<Rightarrow> WatchStream \<times> EtcdRegistry \<Rightarrow> WatchStream \<times> EtcdRegistry" where
  "EtcdRegistry_Watch_loop serviceName [] (st, r) = (st, r)"
| "EtcdRegistry_Watch_loop serviceName (WatchChClosed # evs) (st, r) = (st\<lparr>ch_closed := True\<rparr>, r)"
| "EtcdRegistry_Watch_loop serviceName (WatchResponse werr c sel # evs) (st, r) =
     (if werr \<noteq> None then
        (st\<lparr>ch_closed := True\<rparr>, r\<lparr>etcd_logger := log_to (etcd_logger r) ErrorLevel ''Watch error''\<rparr>)
      else
        (case EtcdRegistry_Discover serviceName (r\<lparr>etcd_client := c\<rparr>) of
           (Inl err, r1) \<Rightarrow>
             EtcdRegistry_Watch_loop serviceName evs
               (st, r1\<lparr>etcd_logger :=
                       log_to (etcd_logger r1) ErrorLevel ''Failed to discover services on watch''\<rparr>)
         | (Inr services, r1) \<Rightarrow>
             (case sel of
                Sent \<Rightarrow> EtcdRegistry_Watch_loop serviceName evs (st\<lparr>ch := ch st @ [services]\<rparr>, r1)
              | CtxDone \<Rightarrow> (st\<lparr>ch_closed := True\<rparr>, r1))))"

section \<open>\<^verbatim>\<open>ConsulRegistry\<close> (consul.go)\<close>

text \<open>
  The catalog as \<^verbatim>\<open>Health().Service(name, "", true, opts)\<close> sees it: the service
  entries with the state of their health check, the index of the last change, and whether
  the agent can be reached. The waiting of a blocking query is not modelled; a query is
  answered from the catalog as it is when the query returns.
\<close>

record ServiceEntry =
  entry_Service :: string
  entry_Address :: string
  entry_Port :: int
  entry_Meta :: "(string \<times> string) list"
  entry_passing :: bool

record consul =
  entries :: "ServiceEntry list"
  LastIndex :: nat
  unreachable :: bool

definition Health_Service :: "string \<Rightarrow> bool \<Rightarrow> consul \<Rightarrow> error + ServiceEntry list \<times> nat" where
  "Health_Service service passingOnly c =
     (if unreachable c then Inl ''Unexpected response code: 500''
      else Inr (filter (\<lambda>e. entry_Service e = service \<and> (if passingOnly then entry_passing e else True)) (entries c),
                LastIndex c))"

record ConsulRegistry =
  consul_client :: consul
  consul_logger :: logger
  consul_namespace :: string

definition entry_info :: "ServiceEntry \<Rightarrow> ServiceInfo" where
  "entry_info e =
     \<lparr>Name = entry_Service e, Address = entry_Address e, Port = entry_Port e, Metadata = entry_Meta e\<rparr>"

definition ConsulRegistry_Discover :: "string \<Rightarrow> ConsulRegistry \<Rightarrow> (error + ServiceInfo list) \<times> ConsulRegistry" where
  "ConsulRegistry_Discover serviceName r =
     (case Health_Service serviceName True (consul_client r) of
        Inl err \<Rightarrow> (Inl (''failed to discover services: '' @ err), r)
      | Inr (services, meta) \<Rightarrow> (Inr (map entry_info services), r))"

definition ConsulRegistry_Watch :: "string \<Rightarrow> ConsulRegistry \<Rightarrow> (error + WatchStream) \<times> ConsulRegistry" where
  "ConsulRegistry_Watch serviceName r =
     (case ConsulRegistry_Discover serviceName r of
        (Inl err, r1) \<Rightarrow> (Inl err, r1)
      | (Inr services, r1) \<Rightarrow> (Inr \<lparr>ch = [services], ch_closed = False\<rparr>, r1))"

text \<open>
  The goroutine of \<^verbatim>\<open>ConsulRegistry.Watch\<close>. One input per iteration of its
  \<^verbatim>\<open>for\<close> loop: whether the context is done when the iteration starts, the catalog
  when the blocking query returns, and the outcome of the \<^verbatim>\<open>select\<close> that sends the
  result. The loop state is the stream, the registry, \<^verbatim>\<open>lastIndex\<close> and the seconds
  spent in \<^verbatim>\<open>time.Sleep\<close>.
\<close>

record consul_iteration =
  done_at_top :: bool
  catalog :: consul
  send :: select_outcome

fun ConsulRegistry_Watch_loop ::
  "string \<Rightarrow> consul_iteration list \<Rightarrow> WatchStream \<times> ConsulRegistry \<times> nat \<times> nat
    \<Rightarrow> WatchStream \<times> ConsulRegistry \<times> nat \<times> nat" where
  "ConsulRegistry_Watch_loop serviceName [] (st, r, lastIndex, slept) = (st, r, lastIndex, slept)"
| "ConsulRegistry_Watch_loop serviceName (it # its) (st, r, lastIndex, slept) =
     (if done_at_top it then (st\<lparr>ch_closed := True\<rparr>, r, lastIndex, slept)
      else
        (case Health_Service serviceName True (catalog it) of
           Inl err \<Rightarrow>
             ConsulRegistry_Watch_loop serviceName its
               (st, r\<lparr>consul_client := catalog it,
                      consul_logger := log_to (consul_logger r) ErrorLevel ''Failed to watch services''\<rparr>,
                lastIndex, slept + 5)
         | Inr (services, meta) \<Rightarrow>
             (case send it of
                Sent \<Rightarrow>
                  ConsulRegistry_Watch_loop serviceName its
                    (st\<lparr>ch := ch st @ [map entry_info services]\<rparr>, r\<lparr>consul_client := catalog it\<rparr>,
                     meta, slept)
              | CtxDone \<Rightarrow> (st\<lparr>ch_closed := True\<rparr>, r\<lparr>consul_client := catalog it\<rparr>, meta, slept))))"

section \<open>The \<^verbatim>\<open>Registry\<close> interface and \<^verbatim>\<open>ServiceManager\<close>\<close>

text \<open>
  A value of the Go interface \<^verbatim>\<open>Registry\<close> is an object of some type \<open>'r\<close> together
  with its methods. The methods are passed as a record of functions; the object is the
  state they transform. \<^verbatim>\<open>Watch\<close> and \<^verbatim>\<open>Close\<close> are not called by the code
  modelled below and are left out of the record.
\<close>

record 'r Registry =
  Register :: "ServiceInfo \<Rightarrow> 'r \<Rightarrow> error option \<times> 'r"
  Deregister :: "ServiceInfo \<Rightarrow> 'r \<Rightarrow> error option \<times> 'r"
  Discover :: "string \<Rightarrow> 'r \<Rightarrow> (error + ServiceInfo list) \<times> 'r"

definition EtcdRegistry_methods :: "EtcdRegistry Registry" where
  "EtcdRegistry_methods =
     \<lparr>Register = EtcdRegistry_Register, Deregister = EtcdRegistry_Deregister,
      Discover = EtcdRegistry_Discover\<rparr>"

text \<open>
  \<^verbatim>\<open>MockRegistry\<close>, the test double of the client package: a map from service name to
  the list of its instances. Its \<^verbatim>\<open>Deregister\<close> removes the first instance with the
  same address and port; none of its methods fails.
\<close>

type_synonym MockRegistry = "(string \<times> ServiceInfo list) list"

definition mock_services :: "MockRegistry \<Rightarrow> string \<Rightarrow> ServiceInfo list" where
  "mock_services m n = (case map_of m n of None \<Rightarrow> [] | Some l \<Rightarrow> l)"

fun mock_remove :: "ServiceInfo \<Rightarrow> ServiceInfo list \<Rightarrow> ServiceInfo list" where
  "mock_remove service [] = []"
| "mock_remove service (s # l) =
     (if Address s = Address service \<and> Port s = Port service then l else s # mock_remove service l)"

definition MockRegistry_Register :: "ServiceInfo \<Rightarrow> MockRegistry \<Rightarrow> error option \<times> MockRegistry" where
  "MockRegistry_Register service m =
     (None, AList.update (Name service) (mock_services m (Name service) @ [service]) m)"

definition MockRegistry_Deregister :: "ServiceInfo \<Rightarrow> MockRegistry \<Rightarrow> error option \<times> MockRegistry" where
  "MockRegistry_Deregister service m =
     (None, if mock_services m (Name service) = [] then m
            else AList.update (Name service) (mock_remove service (mock_services m (Name service))) m)"

definition MockRegistry_Discover :: "string \<Rightarrow> MockRegistry \<Rightarrow> (error + ServiceInfo list) \<times> MockRegistry" where
  "MockRegistry_Discover serviceName m = (Inr (mock_services m serviceName), m)"

definition MockRegistry_methods :: "MockRegistry Registry" where
  "MockRegistry_methods =
     \<lparr>Register = MockRegistry_Register, Deregister = MockRegistry_Deregister,
      Discover = MockRegistry_Discover\<rparr>"

text \<open>
  \<^verbatim>\<open>ServiceManager\<close>: the registry it was built around (a registry that
  \<^verbatim>\<open>NewRegistry\<close> returned, not the nil interface value), its logger and the map of
  the records it registered, keyed by \<^verbatim>\<open>name:address:port\<close>. The map is an association
  list with distinct keys; a \<^verbatim>\<open>range\<close> over it visits the entries in list order,
  which stands for whatever order Go picks.
\<close>

record 'r ServiceManager =
  sm_registry :: 'r
  sm_logger :: logger
  sm_services :: "(string \<times> ServiceInfo) list"

definition NewServiceManager :: "'r \<Rightarrow> logger \<Rightarrow> 'r ServiceManager" where
  "NewServiceManager registry lg = \<lparr>sm_registry = registry, sm_logger = lg, sm_services = []\<rparr>"

definition service_key :: "ServiceInfo \<Rightarrow> string" where
  "service_key service = Name service @ '':'' @ Address service @ '':'' @ fmt_d (Port service)"

definition RegisterService ::
  "'r Registry \<Rightarrow> ServiceInfo \<Rightarrow> 'r ServiceManager \<Rightarrow> error option \<times> 'r ServiceManager" where
  "RegisterService I service sm =
     (case Register I service (sm_registry sm) of
        (Some err, r1) \<Rightarrow> (Some err, sm\<lparr>sm_registry := r1\<rparr>)
      | (None, r1) \<Rightarrow>
          (None, sm\<lparr>sm_registry := r1,
                    sm_services := AList.update (service_key service) service (sm_services sm)\<rparr>))"

definition DeregisterService ::
  "'r Registry \<Rightarrow> ServiceInfo \<Rightarrow> 'r ServiceManager \<Rightarrow> error option \<times> 'r ServiceManager" where
  "DeregisterService I service sm =
     (case Deregister I service (sm_registry sm) of
        (Some err, r1) \<Rightarrow> (Some err, sm\<lparr>sm_registry := r1\<rparr>)
      | (None, r1) \<Rightarrow>
          (None, sm\<lparr>sm_registry := r1,
                    sm_services := AList.delete (service_key service) (sm_services sm)\<rparr>))"

text \<open>The loop of \<^verbatim>\<open>DeregisterAll\<close> over the entries of the map.\<close>

fun deregister_each ::
  "'r Registry \<Rightarrow> (string \<times> ServiceInfo) list \<Rightarrow> 'r \<times> logger \<Rightarrow> 'r \<times> logger" where
  "deregister_each I [] (r, lg) = (r, lg)"
| "deregister_each I ((k, service) # rest) (r, lg) =
     (case Deregister I service r of
        (Some err, r1) \<Rightarrow>
          deregister_each I rest (r1, log_to lg ErrorLevel ''Failed to deregister service'')
      | (None, r1) \<Rightarrow> deregister_each I rest (r1, lg))"

definition DeregisterAll :: "'r Registry \<Rightarrow> 'r ServiceManager \<Rightarrow> error option \<times> 'r ServiceManager" where
  "DeregisterAll I sm =
     (case deregister_each I (sm_services sm) (sm_registry sm, sm_logger sm) of
        (r1, lg) \<Rightarrow> (None, sm\<lparr>sm_registry := r1, sm_logger := lg, sm_services := []\<rparr>))"

text \<open>
  The calls that \<^verbatim>\<open>DeregisterAll\<close> makes: \<^verbatim>\<open>Deregister\<close> on each record in turn,
  with the answers of the registry and the registry afterwards; and how many of a list of
  answers are errors.
\<close>

fun Deregister_calls :: "'r Registry \<Rightarrow> ServiceInfo list \<Rightarrow> 'r \<Rightarrow> error option list \<times> 'r" where
  "Deregister_calls I [] r = ([], r)"
| "Deregister_calls I (service # rest) r =
     (case Deregister I service r of
        (e, r1) \<Rightarrow> (case Deregister_calls I rest r1 of (es, r2) \<Rightarrow> (e # es, r2)))"

definition failures :: "error option list \<Rightarrow> nat" where
  "failures es = length (filter (\<lambda>e. e \<noteq> None) es)"

section \<open>The gRPC library as the client package uses it\<close>

text \<open>
  \<^verbatim>\<open>discoveryResolverBuilder\<close> and \<^verbatim>\<open>discoveryResolver\<close> (resolver.go). The builder
  captures the service name it was created for; its registry and logger are the
  factory's. \<^verbatim>\<open>Build\<close> receives the target of the connection and the connection
  (\<open>cc\<close>, by its number). The goroutine \<^verbatim>\<open>start\<close> that \<^verbatim>\<open>Build\<close> launches is not
  part of the model.
\<close>

record discoveryResolverBuilder =
  b_serviceName :: string

record discoveryResolver =
  r_serviceName :: string
  r_cc :: nat

definition Build :: "discoveryResolverBuilder \<Rightarrow> string \<Rightarrow> nat \<Rightarrow> discoveryResolver" where
  "Build b target cc = \<lparr>r_serviceName = b_serviceName b, r_cc = cc\<rparr>"

definition Scheme :: "discoveryResolverBuilder \<Rightarrow> string" where
  "Scheme b = ''discovery''"

text \<open>
  What the process shares with the gRPC library: the global table of resolver builders by
  scheme (\<^verbatim>\<open>resolver.Register\<close> stores the builder under its scheme, replacing the one
  that was there), the targets \<^verbatim>\<open>grpc.DialContext\<close> has been called with, the
  connections it has returned, the targets for which it fails, and the connections closed
  so far. A connection is identified by its number, which no other connection has. The
  dial options are built from the static configuration alone and are passed through to
  \<^verbatim>\<open>grpc.DialContext\<close>; they are not modelled.
\<close>

record ClientConn =
  conn_id :: nat
  conn_target :: string

record grpc =
  resolvers :: "(string \<times> discoveryResolverBuilder) list"
  dial_calls :: "string list"
  dialed :: "ClientConn list"
  refused :: "string list"
  closed_conns :: "nat list"

definition resolver_Register :: "discoveryResolverBuilder \<Rightarrow> grpc \<Rightarrow> grpc" where
  "resolver_Register b g = g\<lparr>resolvers := AList.update (Scheme b) b (resolvers g)\<rparr>"

definition DialContext :: "string \<Rightarrow> grpc \<Rightarrow> (error + ClientConn) \<times> grpc" where
  "DialContext target g =
     (let g1 = g\<lparr>dial_calls := dial_calls g @ [target]\<rparr>
      in if target \<in> set (refused g) then (Inl ''context deadline exceeded'', g1)
         else (let conn = \<lparr>conn_id = length (dial_calls g), conn_target = target\<rparr>
               in (Inr conn, g1\<lparr>dialed := dialed g1 @ [conn]\<rparr>)))"

definition ClientConn_Close :: "ClientConn \<Rightarrow> grpc \<Rightarrow> error option \<times> grpc" where
  "ClientConn_Close conn g =
     (if conn_id conn \<in> set (closed_conns g) then (Some ''grpc: the client connection is closing'', g)
      else (None, g\<lparr>closed_conns := conn_id conn # closed_conns g\<rparr>))"

section \<open>\<^verbatim>\<open>ClientFactory\<close> (factory.go)\<close>

text \<open>
  The factory: its registry (\<open>None\<close> is the nil interface value that
  \<^verbatim>\<open>NewClientFactory\<close> receives when no discovery is configured), its logger and its
  cache of connections by service name. A call either returns or panics; calling a method
  on the nil interface value is a panic of the Go runtime.
\<close>

record 'r ClientFactory =
  cf_registry :: "'r option"
  cf_logger :: logger
  cf_clients :: "(string \<times> ClientConn) list"

datatype 'a outcome = Return 'a | Panic string

definition nil_dereference :: string where
  "nil_dereference = ''runtime error: invalid memory address or nil pointer dereference''"

definition NewClientFactory :: "'r option \<Rightarrow> logger \<Rightarrow> 'r ClientFactory" where
  "NewClientFactory registry lg = \<lparr>cf_registry = registry, cf_logger = lg, cf_clients = []\<rparr>"

definition registerResolver :: "string \<Rightarrow> grpc \<Rightarrow> grpc" where
  "registerResolver serviceName g = resolver_Register \<lparr>b_serviceName = serviceName\<rparr> g"

text \<open>
  \<^verbatim>\<open>createConnection\<close>. It first calls \<^verbatim>\<open>f.registry.Discover\<close>, whatever the
  registry is; only later, when it picks the target, does it test \<^verbatim>\<open>f.registry != nil\<close>.
\<close>

definition createConnection ::
  "'r Registry \<Rightarrow> string \<Rightarrow> 'r ClientFactory \<times> grpc \<Rightarrow> (error + ClientConn) outcome \<times> 'r ClientFactory \<times> grpc" where
  "createConnection I serviceName fg =
     (case fg of (f, g) \<Rightarrow>
        (case cf_registry f of
           None \<Rightarrow> (Panic nil_dereference, f, g)
         | Some r \<Rightarrow>
             (case Discover I serviceName r of
                (Inl err, r1) \<Rightarrow>
                  (Return (Inl (''failed to discover service '' @ serviceName @ '': '' @ err)),
                   f\<lparr>cf_registry := Some r1\<rparr>, g)
              | (Inr services, r1) \<Rightarrow>
                  (let f1 = f\<lparr>cf_registry := Some r1\<rparr>
                   in if length services = 0 then
                        (Return (Inl (''service '' @ serviceName @ '' not found'')), f1, g)
                      else
                        (case (if cf_registry f1 \<noteq> None then
                                 (''discovery:///'' @ serviceName, f1, registerResolver serviceName g)
                               else
                                 (serviceName,
                                  f1\<lparr>cf_logger :=
                                       log_to (cf_logger f1) InfoLevel ''Using DNS resolver for gRPC client''\<rparr>,
                                  g)) of
                           (target, f2, g2) \<Rightarrow>
                             (case DialContext target g2 of
                                (Inl err, g3) \<Rightarrow>
                                  (Return (Inl (''failed to dial '' @ serviceName @ '': '' @ err)), f2, g3)
                              | (Inr conn, g3) \<Rightarrow>
                                  (Return (Inr conn),
                                   f2\<lparr>cf_logger :=
                                        log_to (cf_logger f2) InfoLevel ''Created gRPC client connection''\<rparr>,
                                   g3)))))))"

text \<open>
  \<^verbatim>\<open>GetClient\<close> is two critical sections: the look-up under the read lock, and, after
  a miss, the second look-up and the creation under the write lock.
\<close>

definition GetClient_read :: "string \<Rightarrow> 'r ClientFactory \<Rightarrow> ClientConn option" where
  "GetClient_read serviceName f = map_of (cf_clients f) serviceName"

definition GetClient_write ::
  "'r Registry \<Rightarrow> string \<Rightarrow> 'r ClientFactory \<times> grpc \<Rightarrow> (error + ClientConn) outcome \<times> 'r ClientFactory \<times> grpc" where
  "GetClient_write I serviceName fg =
     (case map_of (cf_clients (fst fg)) serviceName of
        Some conn \<Rightarrow> (Return (Inr conn), fg)
      | None \<Rightarrow>
          (case createConnection I serviceName fg of
             (Return (Inr conn), f1, g1) \<Rightarrow>
               (Return (Inr conn), f1\<lparr>cf_clients := AList.update serviceName conn (cf_clients f1)\<rparr>, g1)
           | (res, f1, g1) \<Rightarrow> (res, f1, g1)))"

definition GetClient ::
  "'r Registry \<Rightarrow> string \<Rightarrow> 'r ClientFactory \<times> grpc \<Rightarrow> (error + ClientConn) outcome \<times> 'r ClientFactory \<times> grpc" where
  "GetClient I serviceName fg =
     (case GetClient_read serviceName (fst fg) of
        Some conn \<Rightarrow> (Return (Inr conn), fg)
      | None \<Rightarrow> GetClient_write I serviceName fg)"

text \<open>\<^verbatim>\<open>Close\<close>: close every cached connection, log the failures, replace the map.\<close>

fun close_each :: "(string \<times> ClientConn) list \<Rightarrow> logger \<times> grpc \<Rightarrow> logger \<times> grpc" where
  "close_each [] (lg, g) = (lg, g)"
| "close_each ((serviceName, conn) # rest) (lg, g) =
     (case ClientConn_Close conn g of
        (Some err, g1) \<Rightarrow> close_each rest (log_to lg ErrorLevel ''Failed to close client connection'', g1)
      | (None, g1) \<Rightarrow> close_each rest (lg, g1))"

definition Close :: "'r ClientFactory \<times> grpc \<Rightarrow> error option \<times> 'r ClientFactory \<times> grpc" where
  "Close fg =
     (case fg of (f, g) \<Rightarrow>
        (case close_each (cf_clients f) (cf_logger f, g) of
           (lg, g1) \<Rightarrow> (None, f\<lparr>cf_logger := lg, cf_clients := []\<rparr>, g1)))"

text \<open>
  Callers of \<^verbatim>\<open>GetClient\<close> running at the same time. The mutex makes each critical
  section atomic, so a run is a sequence of sections, each of one caller; between them the
  registry may change behind the factory. A caller is about to enter the read section,
  has missed and waits for the write lock, or has got its result.
\<close>

datatype caller = Calling string | Waiting string | Returned string "(error + ClientConn) outcome"

datatype 'r action = Run nat | RegistryChanged 'r

definition caller_step ::
  "'r Registry \<Rightarrow> caller \<Rightarrow> 'r ClientFactory \<times> grpc \<Rightarrow> caller \<times> 'r ClientFactory \<times> grpc" where
  "caller_step I c fg =
     (case c of
        Calling n \<Rightarrow>
          (case GetClient_read n (fst fg) of
             Some conn \<Rightarrow> (Returned n (Return (Inr conn)), fg)
           | None \<Rightarrow> (Waiting n, fg))
      | Waiting n \<Rightarrow> (case GetClient_write I n fg of (res, fg1) \<Rightarrow> (Returned n res, fg1))
      | Returned n res \<Rightarrow> (c, fg))"

fun run_callers ::
  "'r Registry \<Rightarrow> 'r action list \<Rightarrow> caller list \<times> 'r ClientFactory \<times> grpc \<Rightarrow> caller list \<times> 'r ClientFactory \<times> grpc" where
  "run_callers I [] s = s"
| "run_callers I (Run i # as) (cs, fg) =
     (if i < length cs then
        (case caller_step I (cs ! i) fg of (c1, fg1) \<Rightarrow> run_callers I as (cs[i := c1], fg1))
      else run_callers I as (cs, fg))"
| "run_callers I (RegistryChanged r # as) (cs, f, g) =
     run_callers I as (cs, (if cf_registry f = None then f else f\<lparr>cf_registry := Some r\<rparr>), g)"

text \<open>Among some connections that \<^verbatim>\<open>grpc.DialContext\<close> has returned, those for
  the discovery target of a service name.\<close>

definition created_for :: "string \<Rightarrow> ClientConn list \<Rightarrow> ClientConn list" where
  "created_for n conns = filter (\<lambda>c. conn_target c = ''discovery:///'' @ n) conns"

text \<open>
  What holds between the critical sections of any run that started with the factory
  \<open>f0\<close> and the library state \<open>g0\<close>: the connections created since the start are,
  for each name, exactly the cache entry of that name if the name was not cached at the
  start, and none otherwise; an entry that was in the cache at the start is still there;
  and a caller that has got a connection for a name holds the one the cache has for it.
\<close>

definition cache_inv ::
  "'r ClientFactory \<Rightarrow> grpc \<Rightarrow> caller list \<times> 'r ClientFactory \<times> grpc \<Rightarrow> bool" where
  "cache_inv f0 g0 s =
     (case s of (cs, f, g) \<Rightarrow>
        (\<exists>new. dialed g = dialed g0 @ new \<and>
           (\<forall>n. created_for n new =
              (case map_of (cf_clients f) n of
                 None \<Rightarrow> []
               | Some c \<Rightarrow> if map_of (cf_clients f0) n = None then [c] else []))) \<and>
        (\<forall>n c. map_of (cf_clients f0) n = Some c \<longrightarrow> map_of (cf_clients f) n = Some c) \<and>
        (\<forall>n c. Returned n (Return (Inr c)) \<in> set cs \<longrightarrow> map_of (cf_clients f) n = Some c))"

text \<open>
  The calls that \<^verbatim>\<open>Close\<close> makes: \<^verbatim>\<open>conn.Close()\<close> on each cached connection in
  turn, with the answers it gets and the state of the library afterwards.
\<close>

fun Close_calls :: "ClientConn list \<Rightarrow> grpc \<Rightarrow> error option list \<times> grpc" where
  "Close_calls [] g = ([], g)"
| "Close_calls (conn # rest) g =
     (case ClientConn_Close conn g of
        (e, g1) \<Rightarrow> (case Close_calls rest g1 of (es, g2) \<Rightarrow> (e # es, g2)))"

section \<open>Concrete inputs\<close>

text \<open>A process that has not yet touched the gRPC library, and the record of the
  specification's example scenario.\<close>

definition grpc0 :: grpc where
  "grpc0 = \<lparr>resolvers = [], dial_calls = [], dialed = [], refused = [], closed_conns = []\<rparr>"

definition greeter :: ServiceInfo where
  "greeter = \<lparr>Name = ''greeter'', Address = ''10.0.0.5'', Port = 9090, Metadata = []\<rparr>"

text \<open>
  A factory whose cache holds a connection for a service that has since lost its last
  instance: \<^verbatim>\<open>greeter\<close> is registered with the test registry, \<^verbatim>\<open>GetClient\<close> is
  called once, then the instance is deregistered.
\<close>

definition cached_then_gone :: "MockRegistry ClientFactory \<times> grpc" where
  "cached_then_gone =
     (case GetClient MockRegistry_methods ''greeter''
             (NewClientFactory (Some (snd (MockRegistry_Register greeter []))) [], grpc0) of
        (res, f, g) \<Rightarrow>
          (f\<lparr>cf_registry := Some (snd (MockRegistry_Deregister greeter (snd (MockRegistry_Register greeter []))))\<rparr>, g))"

text \<open>
  A factory that has connected to \<^verbatim>\<open>greeter\<close> while a second service,
  \<^verbatim>\<open>billing\<close>, is registered too and has not been asked for yet.
\<close>

definition billing :: ServiceInfo where
  "billing = \<lparr>Name = ''billing'', Address = ''10.0.0.7'', Port = 9443, Metadata = []\<rparr>"

definition both_registered :: MockRegistry where
  "both_registered = snd (MockRegistry_Register billing (snd (MockRegistry_Register greeter [])))"

definition greeter_connected :: "MockRegistry ClientFactory \<times> grpc" where
  "greeter_connected =
     snd (GetClient MockRegistry_methods ''greeter'' (NewClientFactory (Some both_registered) [], grpc0))"

text \<open>
  An empty cluster, and a service manager over the lease-store registry that has
  registered \<^verbatim>\<open>greeter\<close> and then lost its connection to the cluster.
\<close>

definition etcd0 :: etcd where
  "etcd0 = \<lparr>kvs = [], leases = [], next_lease = 1, failing = []\<rparr>"

definition registered_then_cut :: "EtcdRegistry ServiceManager" where
  "registered_then_cut =
     (case RegisterService EtcdRegistry_methods greeter
             (NewServiceManager (NewEtcdRegistry etcd0 ''/grpc-kit'' []) []) of
        (err, sm) \<Rightarrow>
          sm\<lparr>sm_registry := (sm_registry sm)\<lparr>etcd_client :=
               (etcd_client (sm_registry sm))\<lparr>failing := [OpGrant, OpPut, OpKeepAlive, OpRevoke, OpDelete, OpGet]\<rparr>\<rparr>\<rparr>)"

text \<open>A service manager over the test registry that has registered \<^verbatim>\<open>greeter\<close>.\<close>

definition mock_registered :: "MockRegistry ServiceManager" where
  "mock_registered = snd (RegisterService MockRegistry_methods greeter (NewServiceManager [] []))"

text \<open>
  A lease-store registry on the empty cluster that registers \<^verbatim>\<open>greeter\<close>, then
  \<^verbatim>\<open>billing\<close>, then deregisters \<^verbatim>\<open>greeter\<close>.
\<close>

definition registry0 :: EtcdRegistry where
  "registry0 = NewEtcdRegistry etcd0 ''/grpc-kit'' []"

definition registry_a :: EtcdRegistry where
  "registry_a = snd (EtcdRegistry_Register greeter registry0)"

definition registry_b :: EtcdRegistry where
  "registry_b = snd (EtcdRegistry_Register billing registry_a)"

definition registry_c :: EtcdRegistry where
  "registry_c = snd (EtcdRegistry_Deregister greeter registry_b)"

text \<open>
  Two instances of \<^verbatim>\<open>greeter\<close> beside one of \<^verbatim>\<open>billing\<close>: in the lease store,
  registered through \<^verbatim>\<open>Register\<close>, and in the catalog, where a third instance of
  \<^verbatim>\<open>greeter\<close> fails its health check.
\<close>

definition greeter2 :: ServiceInfo where
  "greeter2 = \<lparr>Name = ''greeter'', Address = ''10.0.0.5'', Port = 9091, Metadata = []\<rparr>"

definition registry_two :: EtcdRegistry where
  "registry_two = snd (EtcdRegistry_Register greeter2 registry_b)"

definition catalog_two :: consul where
  "catalog_two =
     \<lparr>entries =
        [\<lparr>entry_Service = ''greeter'', entry_Address = ''10.0.0.5'', entry_Port = 9090,
          entry_Meta = [], entry_passing = True\<rparr>,
         \<lparr>entry_Service = ''billing'', entry_Address = ''10.0.0.7'', entry_Port = 9443,
          entry_Meta = [], entry_passing = True\<rparr>,
         \<lparr>entry_Service = ''greeter'', entry_Address = ''10.0.0.6'', entry_Port = 9090,
          entry_Meta = [], entry_passing = False\<rparr>,
         \<lparr>entry_Service = ''greeter'', entry_Address = ''10.0.0.5'', entry_Port = 9091,
          entry_Meta = [], entry_passing = True\<rparr>],
      LastIndex = 7, unreachable = False\<rparr>"

definition consul_registry_two :: ConsulRegistry where
  "consul_registry_two = \<lparr>consul_client = catalog_two, consul_logger = [], consul_namespace = ''/grpc-kit''\<rparr>"

text \<open>The factory of \<open>greeter_connected\<close> after its connection has been closed by a
  caller, as the DNS demo does with the connections it gets.\<close>

definition greeter_closed :: "MockRegistry ClientFactory \<times> grpc" where
  "greeter_closed =
     (fst greeter_connected, (snd greeter_connected)\<lparr>closed_conns := [0]\<rparr>)"

text \<open>The same factory after it has connected to \<^verbatim>\<open>billing\<close> as well.\<close>

definition both_connected :: "MockRegistry ClientFactory \<times> grpc" where
  "both_connected = snd (GetClient MockRegistry_methods ''billing'' greeter_connected)"

section \<open>Decimal formatting\<close>

lemma of_char_digit_char: "d < 10 \<Longrightarrow> of_char (digit_char d) = (48 + d :: nat)"
  by (simp add: digit_char_def)




lemma digit_char_plain:
  assumes "d < 10"
  shows "digit_char d \<noteq> CHR ''/''" and "digit_char d \<noteq> CHR '':''" and "digit_char d \<noteq> CHR ''-''"
proof -
  have v: "of_char (digit_char d) = (48 + d :: nat)"
    using assms by (rule of_char_digit_char)
  show "digit_char d \<noteq> CHR ''/''"
  proof
    assume "digit_char d = CHR ''/''"
    then have "(of_char (digit_char d) :: nat) = of_char (CHR ''/'')" by simp
    with v show False by simp
  qed
  show "digit_char d \<noteq> CHR '':''"
  proof
    assume "digit_char d = CHR '':''"
    then have "(of_char (digit_char d) :: nat) = of_char (CHR '':'')" by simp
    with v assms show False by simp
  qed
  show "digit_char d \<noteq> CHR ''-''"
  proof
    assume "digit_char d = CHR ''-''"
    then have "(of_char (digit_char d) :: nat) = of_char (CHR ''-'')" by simp
    with v show False by simp
  qed
qed

lemma dec_nat_chars:
  "c \<in> set (dec_nat n) \<Longrightarrow> c \<noteq> CHR ''/'' \<and> c \<noteq> CHR '':'' \<and> c \<noteq> CHR ''-''"
proof (induction n rule: dec_nat.induct)
  case (1 n)
  show ?case
  proof (cases "n < 10")
    case True
    with 1(2) have "c = digit_char n"
      by (subst (asm) dec_nat.simps) simp
    with True show ?thesis
      using digit_char_plain [of n] by simp
  next
    case False
    with 1(2) have "c \<in> set (dec_nat (n div 10)) \<or> c = digit_char (n mod 10)"
      by (subst (asm) dec_nat.simps) auto
    then show ?thesis
    proof
      assume "c \<in> set (dec_nat (n div 10))"
      with False 1(1) show ?thesis by simp
    next
      assume "c = digit_char (n mod 10)"
      then show ?thesis
        using digit_char_plain [of "n mod 10"] by simp
    qed
  qed
qed



lemma fmt_d_chars: "c \<in> set (fmt_d i) \<Longrightarrow> c \<noteq> CHR ''/'' \<and> c \<noteq> CHR '':''"
  using dec_nat_chars by (auto simp: fmt_d_def split: if_splits)


section \<open>Cleaning a path that is already clean\<close>

lemma takeWhile_seg:
  "CHR ''/'' \<notin> set s \<Longrightarrow> at_end_or_slash rest \<Longrightarrow>
   takeWhile (\<lambda>x. x \<noteq> CHR ''/'') (s @ rest) = s \<and> dropWhile (\<lambda>x. x \<noteq> CHR ''/'') (s @ rest) = rest"
  by (cases rest) (auto simp: at_end_or_slash_def takeWhile_append dropWhile_append)

lemma clean_loop_seg:
  assumes s: "plain_seg s" and r: "at_end_or_slash rest"
  shows "clean_loop rooted dotdot out (s @ rest) = clean_loop rooted dotdot (out @ sep rooted out @ s) rest"
proof -
  from s obtain c s' where cs: "s = c # s'" and ns: "CHR ''/'' \<notin> set s"
    and nd: "s \<noteq> ''.''" and ndd: "s \<noteq> ''..''"
    by (cases s) (auto simp: plain_seg_def)
  from ns cs have c: "c \<noteq> CHR ''/''" by auto
  have a1: "\<not> (c = CHR ''.'' \<and> at_end_or_slash (s' @ rest))"
    using cs ns nd by (cases s') (auto simp: at_end_or_slash_def)
  have a2: "\<not> (c = CHR ''.'' \<and> (case s' @ rest of [] \<Rightarrow> False | d # q \<Rightarrow> d = CHR ''.'' \<and> at_end_or_slash q))"
  proof (cases s')
    case Nil
    with cs nd show ?thesis by auto
  next
    case (Cons d s'')
    show ?thesis
    proof (cases s'')
      case Nil
      with Cons cs ndd show ?thesis by auto
    next
      case (Cons e s3)
      with \<open>s' = d # s''\<close> cs ns show ?thesis by (auto simp: at_end_or_slash_def)
    qed
  qed
  have tw: "takeWhile (\<lambda>x. x \<noteq> CHR ''/'') (c # s' @ rest) = s"
    and dw: "dropWhile (\<lambda>x. x \<noteq> CHR ''/'') (c # s' @ rest) = rest"
    using takeWhile_seg [OF ns r] cs by simp_all
  have "clean_loop rooted dotdot out (c # (s' @ rest)) =
        clean_loop rooted dotdot (out @ sep rooted out @ s) rest"
    apply (subst clean_loop.simps(2))
    apply (simp only: c a1 a2 if_False tw dw Let_def sep_def)
    apply (simp split: if_splits)
    done
  with cs show ?thesis by simp
qed

lemma sep_after_seg: "s \<noteq> [] \<Longrightarrow> sep rooted (out @ sep rooted out @ s) = ''/''"
  by (cases s) (auto simp: sep_def)

lemma plain_seg_rel: "plain_seg s \<Longrightarrow> plain_rel s"
proof -
  assume s: "plain_seg s"
  then have n: "CHR ''/'' \<notin> set s" by (simp add: plain_seg_def)
  have e: "at_end_or_slash []" by (simp add: at_end_or_slash_def)
  have "takeWhile (\<lambda>x. x \<noteq> CHR ''/'') s = s" and "dropWhile (\<lambda>x. x \<noteq> CHR ''/'') s = []"
    using takeWhile_seg [OF n e] by simp_all
  then show ?thesis
    by (subst plain_rel.simps) (simp only: s list.case simp_thms)
qed

lemma plain_rel_slash:
  assumes n: "CHR ''/'' \<notin> set s"
  shows "plain_rel (s @ CHR ''/'' # q) = (plain_seg s \<and> plain_rel q)"
proof -
  have e: "at_end_or_slash (CHR ''/'' # q)" by (simp add: at_end_or_slash_def)
  have "takeWhile (\<lambda>x. x \<noteq> CHR ''/'') (s @ CHR ''/'' # q) = s"
    and "dropWhile (\<lambda>x. x \<noteq> CHR ''/'') (s @ CHR ''/'' # q) = CHR ''/'' # q"
    using takeWhile_seg [OF n e] by simp_all
  then show ?thesis
    by (subst plain_rel.simps) (simp only: list.case)
qed

lemma plain_rel_cases:
  assumes "plain_rel p"
  shows "plain_seg p \<or> (\<exists>s q. p = s @ CHR ''/'' # q \<and> plain_seg s \<and> plain_rel q)"
proof -
  define s where "s = takeWhile (\<lambda>x. x \<noteq> CHR ''/'') p"
  define r where "r = dropWhile (\<lambda>x. x \<noteq> CHR ''/'') p"
  have p: "p = s @ r" by (simp add: s_def r_def)
  from assms have seg: "plain_seg s" and rest: "case r of [] \<Rightarrow> True | c # q \<Rightarrow> plain_rel q"
    unfolding s_def r_def by (subst (asm) plain_rel.simps, blast)+
  show ?thesis
  proof (cases r)
    case Nil
    with p seg show ?thesis by simp
  next
    case (Cons c q)
    have "r \<noteq> [] \<Longrightarrow> hd r = CHR ''/''"
      unfolding r_def using hd_dropWhile [of "\<lambda>x. x \<noteq> CHR ''/''" p] by blast
    with Cons have "c = CHR ''/''" by simp
    with Cons p seg rest show ?thesis by auto
  qed
qed

lemma clean_loop_plain_rel:
  "plain_rel p \<Longrightarrow> clean_loop rooted dotdot out p = out @ sep rooted out @ p"
proof (induction "length p" arbitrary: p out rule: less_induct)
  case less
  from plain_rel_cases [OF less(2)] show ?case
  proof
    assume seg: "plain_seg p"
    have e: "at_end_or_slash []" by (simp add: at_end_or_slash_def)
    from clean_loop_seg [OF seg e, of rooted dotdot out] show ?thesis by simp
  next
    assume "\<exists>s q. p = s @ CHR ''/'' # q \<and> plain_seg s \<and> plain_rel q"
    then obtain s q where p: "p = s @ CHR ''/'' # q" and seg: "plain_seg s" and q: "plain_rel q"
      by blast
    have ne: "s \<noteq> []" using seg by (simp add: plain_seg_def)
    have e: "at_end_or_slash (CHR ''/'' # q)" by (simp add: at_end_or_slash_def)
    have lt: "length q < length p" using p by simp
    have "clean_loop rooted dotdot out p = clean_loop rooted dotdot (out @ sep rooted out @ s) (CHR ''/'' # q)"
      unfolding p by (rule clean_loop_seg [OF seg e])
    also have "\<dots> = clean_loop rooted dotdot (out @ sep rooted out @ s) q"
      by simp
    also have "\<dots> = (out @ sep rooted out @ s) @ sep rooted (out @ sep rooted out @ s) @ q"
      by (rule less(1) [OF lt q])
    also have "\<dots> = out @ sep rooted out @ p"
      using sep_after_seg [OF ne, of rooted out] p by simp
    finally show ?thesis .
  qed
qed

lemma plain_rel_append:
  "plain_rel a \<Longrightarrow> plain_rel b \<Longrightarrow> plain_rel (a @ CHR ''/'' # b)"
proof (induction "length a" arbitrary: a rule: less_induct)
  case less
  from plain_rel_cases [OF less(2)] show ?case
  proof
    assume seg: "plain_seg a"
    then have "CHR ''/'' \<notin> set a" by (simp add: plain_seg_def)
    from plain_rel_slash [OF this, of b] seg less(3) show ?thesis by simp
  next
    assume "\<exists>s q. a = s @ CHR ''/'' # q \<and> plain_seg s \<and> plain_rel q"
    then obtain s q where a: "a = s @ CHR ''/'' # q" and seg: "plain_seg s" and q: "plain_rel q"
      by blast
    have lt: "length q < length a" using a by simp
    have ih: "plain_rel (q @ CHR ''/'' # b)"
      by (rule less(1) [OF lt q less(3)])
    from seg have "CHR ''/'' \<notin> set s" by (simp add: plain_seg_def)
    from plain_rel_slash [OF this, of "q @ CHR ''/'' # b"] seg ih
    show ?thesis unfolding a by simp
  qed
qed

lemma Clean_namespace_ok: "namespace_ok p \<Longrightarrow> Clean p = p"
proof -
  assume ok: "namespace_ok p"
  then obtain c q where p: "p = c # q" by (cases p) (auto simp: namespace_ok_def)
  show ?thesis
  proof (cases "c = CHR ''/''")
    case True
    with ok p have "plain_rel q" by (simp add: namespace_ok_def)
    then have "clean_loop True 1 ''/'' q = ''/'' @ sep True ''/'' @ q"
      by (rule clean_loop_plain_rel)
    with p True show ?thesis by (simp add: Clean_def sep_def)
  next
    case False
    with ok p have "plain_rel p" by (simp add: namespace_ok_def)
    then have "clean_loop False 0 [] p = [] @ sep False [] @ p"
      by (rule clean_loop_plain_rel)
    with p False show ?thesis by (simp add: Clean_def sep_def)
  qed
qed

lemma namespace_ok_append:
  assumes "namespace_ok ns" and b: "plain_rel b"
  shows "namespace_ok (ns @ CHR ''/'' # b)"
proof -
  from assms(1) obtain c q where p: "ns = c # q" by (cases ns) (auto simp: namespace_ok_def)
  show ?thesis
  proof (cases "c = CHR ''/''")
    case True
    with assms(1) p have "plain_rel q" by (simp add: namespace_ok_def)
    from plain_rel_append [OF this b] p True show ?thesis by (simp add: namespace_ok_def)
  next
    case False
    with assms(1) p have "plain_rel ns" by (simp add: namespace_ok_def)
    from plain_rel_append [OF this b] p False show ?thesis by (simp add: namespace_ok_def)
  qed
qed

lemma namespace_ok_nonempty: "namespace_ok ns \<Longrightarrow> ns \<noteq> []"
  by (auto simp: namespace_ok_def)

lemma plain_seg_services: "plain_seg ''services''"
  by (simp add: plain_seg_def)

lemma plain_seg_addr_port:
  assumes "CHR ''/'' \<notin> set a"
  shows "plain_seg (a @ '':'' @ fmt_d p)"
proof -
  define x where "x = a @ '':'' @ fmt_d p"
  have "CHR ''/'' \<notin> set (fmt_d p)" using fmt_d_chars [of "CHR ''/''" p] by blast
  with assms have 1: "CHR ''/'' \<notin> set x" by (simp add: x_def)
  have c: "CHR '':'' \<in> set x" by (simp add: x_def)
  then have 0: "x \<noteq> []" by auto
  from c have 2: "x \<noteq> ''.''" by auto
  from c have 3: "x \<noteq> ''..''" by auto
  from 0 1 2 3 have "plain_seg x" by (simp add: plain_seg_def)
  then show ?thesis by (simp add: x_def)
qed

lemma Join3: "ns \<noteq> [] \<Longrightarrow> Join [ns, ''services'', n] = Clean (ns @ ''/services/'' @ n)"
  by (simp add: Join_def join_step_def)

lemma Join4: "ns \<noteq> [] \<Longrightarrow> Join [ns, ''services'', n, x] = Clean (ns @ ''/services/'' @ n @ ''/'' @ x)"
  by (simp add: Join_def join_step_def)

lemma buildServicePrefix_plain:
  assumes ns: "namespace_ok ns" and n: "plain_seg n"
  shows "buildServicePrefix ns n = ns @ ''/services/'' @ n @ ''/''"
proof -
  have "plain_rel (''services'' @ CHR ''/'' # n)"
    by (rule plain_rel_append [OF plain_seg_rel [OF plain_seg_services] plain_seg_rel [OF n]])
  from namespace_ok_append [OF ns this] have "namespace_ok (ns @ ''/services/'' @ n)" by simp
  then have "Clean (ns @ ''/services/'' @ n) = ns @ ''/services/'' @ n"
    by (rule Clean_namespace_ok)
  with Join3 [OF namespace_ok_nonempty [OF ns], of n] show ?thesis
    by (simp add: buildServicePrefix_def)
qed

lemma buildServiceKey_plain:
  assumes ns: "namespace_ok ns" and n: "plain_seg n" and a: "CHR ''/'' \<notin> set a"
  shows "buildServiceKey ns n a p = ns @ ''/services/'' @ n @ ''/'' @ a @ '':'' @ fmt_d p"
proof -
  let ?x = "a @ '':'' @ fmt_d p"
  have "plain_rel (n @ CHR ''/'' # ?x)"
    by (rule plain_rel_append [OF plain_seg_rel [OF n] plain_seg_rel [OF plain_seg_addr_port [OF a]]])
  from plain_rel_append [OF plain_seg_rel [OF plain_seg_services] this]
  have "plain_rel (''services'' @ CHR ''/'' # n @ CHR ''/'' # ?x)" .
  from namespace_ok_append [OF ns this] have "namespace_ok (ns @ ''/services/'' @ n @ ''/'' @ ?x)" by simp
  then have "Clean (ns @ ''/services/'' @ n @ ''/'' @ ?x) = ns @ ''/services/'' @ n @ ''/'' @ ?x"
    by (rule Clean_namespace_ok)
  with Join4 [OF namespace_ok_nonempty [OF ns], of n ?x] show ?thesis
    by (simp add: buildServiceKey_def)
qed





section \<open>The key layout of the lease-store registry\<close>




section \<open>\<^verbatim>\<open>EtcdRegistry\<close>: one lease identifier for all records\<close>

lemma map_of_filter_key: "map_of (filter (\<lambda>(k', _). k' \<noteq> k) xs) k = None"
  by (induction xs) auto

lemma Register_ok:
  assumes "failing (etcd_client r) = []"
  shows "EtcdRegistry_Register s r =
    (None, r\<lparr>etcd_client := (etcd_client r)\<lparr>
                 kvs := filter (\<lambda>(k', _). k' \<noteq> buildServiceKey (etcd_namespace r) (Name s) (Address s) (Port s))
                          (kvs (etcd_client r))
                        @ [(buildServiceKey (etcd_namespace r) (Name s) (Address s) (Port s), Encoded s,
                            next_lease (etcd_client r))],
                 leases := next_lease (etcd_client r) # leases (etcd_client r),
                 next_lease := next_lease (etcd_client r) + 1\<rparr>,
              leaseID := next_lease (etcd_client r),
              etcd_logger := log_to (etcd_logger r) InfoLevel ''Service registered''\<rparr>)"
  using assms
  by (simp add: EtcdRegistry_Register_def Grant_def Put_def KeepAlive_def Let_def)

lemma Deregister_ok:
  assumes "failing (etcd_client r) = []" and "leaseID r \<noteq> 0" and "leaseID r \<in> set (leases (etcd_client r))"
  shows "EtcdRegistry_Deregister s r =
    (None, r\<lparr>etcd_client := (etcd_client r)\<lparr>
                 kvs := filter (\<lambda>(k', _). k' \<noteq> buildServiceKey (etcd_namespace r) (Name s) (Address s) (Port s))
                          (filter (\<lambda>(_, _, l'). l' \<noteq> leaseID r) (kvs (etcd_client r))),
                 leases := removeAll (leaseID r) (leases (etcd_client r))\<rparr>,
              etcd_logger := log_to (etcd_logger r) InfoLevel ''Service deregistered''\<rparr>)"
  using assms
  by (simp add: EtcdRegistry_Deregister_def Revoke_def Delete_def Let_def)

text \<open>
  Claim C9. The registry keeps one lease identifier, and every \<^verbatim>\<open>Register\<close>
  overwrites it; \<^verbatim>\<open>Deregister\<close> revokes the lease stored there, whatever record it
  is given. With the cluster answering every call: after \<^verbatim>\<open>Register(s1)\<close> and
  \<^verbatim>\<open>Register(s2)\<close> the stored lease is the second one, and \<^verbatim>\<open>Deregister(s3)\<close>,
  for any record \<open>s3\<close> (in particular \<open>s1\<close>), revokes the second lease, which
  removes the key of \<open>s2\<close>, deletes the key of \<open>s3\<close>, and leaves the first lease
  alive.
\<close>

theorem Deregister_revokes_latest_lease:
  assumes nf: "failing (etcd_client r) = []" and pos: "0 < next_lease (etcd_client r)"
    and r1: "EtcdRegistry_Register s1 r = (e1, ra)"
    and r2: "EtcdRegistry_Register s2 ra = (e2, rb)"
    and d: "EtcdRegistry_Deregister s3 rb = (e3, rc)"
  shows "e1 = None \<and> e2 = None \<and> e3 = None \<and>
         leaseID ra = next_lease (etcd_client r) \<and>
         leaseID rb = next_lease (etcd_client r) + 1 \<and>
         leaseID rc = leaseID rb \<and>
         map_of (kvs (etcd_client rb)) (buildServiceKey (etcd_namespace r) (Name s2) (Address s2) (Port s2))
           = Some (Encoded s2, leaseID rb) \<and>
         leaseID rb \<notin> set (leases (etcd_client rc)) \<and>
         leaseID ra \<in> set (leases (etcd_client rc)) \<and>
         map_of (kvs (etcd_client rc)) (buildServiceKey (etcd_namespace r) (Name s2) (Address s2) (Port s2)) = None \<and>
         map_of (kvs (etcd_client rc)) (buildServiceKey (etcd_namespace r) (Name s3) (Address s3) (Port s3)) = None"
proof -
  let ?k = "\<lambda>s. buildServiceKey (etcd_namespace r) (Name s) (Address s) (Port s)"
  let ?l = "next_lease (etcd_client r)"
  from r1 Register_ok [OF nf, of s1] have e1: "e1 = None"
    and ra: "ra = r\<lparr>etcd_client := (etcd_client r)\<lparr>
                 kvs := filter (\<lambda>(k', _). k' \<noteq> ?k s1) (kvs (etcd_client r)) @ [(?k s1, Encoded s1, ?l)],
                 leases := ?l # leases (etcd_client r),
                 next_lease := ?l + 1\<rparr>,
              leaseID := ?l,
              etcd_logger := log_to (etcd_logger r) InfoLevel ''Service registered''\<rparr>"
    by simp_all
  have nfa: "failing (etcd_client ra) = []" by (simp add: ra nf)
  from r2 Register_ok [OF nfa, of s2] have e2: "e2 = None"
    and rb: "rb = ra\<lparr>etcd_client := (etcd_client ra)\<lparr>
                 kvs := filter (\<lambda>(k', _). k' \<noteq> ?k s2) (kvs (etcd_client ra)) @ [(?k s2, Encoded s2, ?l + 1)],
                 leases := (?l + 1) # leases (etcd_client ra),
                 next_lease := ?l + 1 + 1\<rparr>,
              leaseID := ?l + 1,
              etcd_logger := log_to (etcd_logger ra) InfoLevel ''Service registered''\<rparr>"
    by (simp_all add: ra)
  have nfb: "failing (etcd_client rb) = []" by (simp add: rb nfa)
  have lb: "leaseID rb = ?l + 1" by (simp add: rb)
  have nz: "leaseID rb \<noteq> 0" using pos lb by simp
  have inl: "leaseID rb \<in> set (leases (etcd_client rb))" by (simp add: rb)
  from d Deregister_ok [OF nfb nz inl, of s3] have e3: "e3 = None"
    and rc: "rc = rb\<lparr>etcd_client := (etcd_client rb)\<lparr>
                 kvs := filter (\<lambda>(k', _). k' \<noteq> buildServiceKey (etcd_namespace rb) (Name s3) (Address s3) (Port s3))
                          (filter (\<lambda>(_, _, l'). l' \<noteq> leaseID rb) (kvs (etcd_client rb))),
                 leases := removeAll (leaseID rb) (leases (etcd_client rb))\<rparr>,
              etcd_logger := log_to (etcd_logger rb) InfoLevel ''Service deregistered''\<rparr>"
    by simp_all
  have ns: "etcd_namespace rb = etcd_namespace r" by (simp add: rb ra)
  have kb: "map_of (kvs (etcd_client rb)) (?k s2) = Some (Encoded s2, leaseID rb)"
    by (simp add: rb map_add_def map_of_filter_key)
  have c1: "leaseID rb \<notin> set (leases (etcd_client rc))" by (simp add: rc)
  have c2: "leaseID ra \<in> set (leases (etcd_client rc))" by (simp add: rc rb ra)
  have c3: "map_of (kvs (etcd_client rc)) (?k s2) = None"
    unfolding map_of_eq_None_iff by (auto simp: rc rb)
  have c4: "map_of (kvs (etcd_client rc)) (?k s3) = None"
    unfolding map_of_eq_None_iff by (auto simp: rc ns)
  from e1 e2 e3 lb kb c1 c2 c3 c4 show ?thesis by (simp add: ra rc)
qed

theorem Deregister_revokes_latest_lease_witness:
  "failing (etcd_client registry0) = [] \<and> 0 < next_lease (etcd_client registry0) \<and>
   leaseID registry_a = 1 \<and> leaseID registry_b = 2 \<and> leaseID registry_c = 2 \<and>
   map_of (kvs (etcd_client registry_b)) (buildServiceKey ''/grpc-kit'' ''billing'' ''10.0.0.7'' 9443)
     = Some (Encoded billing, 2) \<and>
   2 \<notin> set (leases (etcd_client registry_c)) \<and>
   1 \<in> set (leases (etcd_client registry_c)) \<and>
   map_of (kvs (etcd_client registry_c)) (buildServiceKey ''/grpc-kit'' ''billing'' ''10.0.0.7'' 9443) = None \<and>
   map_of (kvs (etcd_client registry_c)) (buildServiceKey ''/grpc-kit'' ''greeter'' ''10.0.0.5'' 9090) = None"
proof -
  have nf: "failing (etcd_client registry0) = []"
    by (simp add: registry0_def NewEtcdRegistry_def etcd0_def)
  have pos: "0 < next_lease (etcd_client registry0)"
    by (simp add: registry0_def NewEtcdRegistry_def etcd0_def)
  have nl: "next_lease (etcd_client registry0) = 1" and ns: "etcd_namespace registry0 = ''/grpc-kit''"
    by (simp_all add: registry0_def NewEtcdRegistry_def etcd0_def)
  have a: "EtcdRegistry_Register greeter registry0 = (fst (EtcdRegistry_Register greeter registry0), registry_a)"
    by (simp add: registry_a_def)
  have b: "EtcdRegistry_Register billing registry_a = (fst (EtcdRegistry_Register billing registry_a), registry_b)"
    by (simp add: registry_b_def)
  have c: "EtcdRegistry_Deregister greeter registry_b = (fst (EtcdRegistry_Deregister greeter registry_b), registry_c)"
    by (simp add: registry_c_def)
  note t = Deregister_revokes_latest_lease [OF nf pos a b c]
  from t have la: "leaseID registry_a = 1" and lb: "leaseID registry_b = 2"
    by (simp_all add: nl)
  from t have lc: "leaseID registry_c = 2"
    by (simp add: lb)
  from t have kb: "map_of (kvs (etcd_client registry_b)) (buildServiceKey ''/grpc-kit'' ''billing'' ''10.0.0.7'' 9443)
     = Some (Encoded billing, 2)"
    by (simp add: lb ns billing_def)
  from t have c1: "2 \<notin> set (leases (etcd_client registry_c))"
    and c2: "1 \<in> set (leases (etcd_client registry_c))"
    by (simp_all add: lb la)
  from t have c3: "map_of (kvs (etcd_client registry_c)) (buildServiceKey ''/grpc-kit'' ''billing'' ''10.0.0.7'' 9443) = None"
    and c4: "map_of (kvs (etcd_client registry_c)) (buildServiceKey ''/grpc-kit'' ''greeter'' ''10.0.0.5'' 9090) = None"
    by (simp_all add: ns billing_def greeter_def)
  from nf pos la lb lc kb c1 c2 c3 c4 show ?thesis by blast
qed

section \<open>Watch: the first snapshot\<close>

lemma etcd_loop_extends:
  "\<exists>rest. ch (fst (EtcdRegistry_Watch_loop n evs (st, r))) = ch st @ rest"
proof (induction evs arbitrary: st r)
  case Nil
  then show ?case by simp
next
  case (Cons ev evs)
  show ?case
  proof (cases ev)
    case WatchChClosed
    then show ?thesis by simp
  next
    case (WatchResponse werr c sel)
    show ?thesis
    proof (cases werr)
      case (Some e)
      with WatchResponse show ?thesis by simp
    next
      case None
      obtain res r1 where d: "EtcdRegistry_Discover n (r\<lparr>etcd_client := c\<rparr>) = (res, r1)"
        by (cases "EtcdRegistry_Discover n (r\<lparr>etcd_client := c\<rparr>)")
      show ?thesis
      proof (cases res)
        case (Inl err)
        with WatchResponse None d Cons show ?thesis by simp
      next
        case (Inr services)
        show ?thesis
        proof (cases sel)
          case Sent
          from Cons [of "st\<lparr>ch := ch st @ [services]\<rparr>" r1]
          obtain rest where "ch (fst (EtcdRegistry_Watch_loop n evs (st\<lparr>ch := ch st @ [services]\<rparr>, r1)))
              = ch st @ [services] @ rest"
            by auto
          with WatchResponse None d Inr Sent show ?thesis by simp
        next
          case CtxDone
          with WatchResponse None d Inr show ?thesis by simp
        qed
      qed
    qed
  qed
qed

lemma consul_loop_extends:
  "\<exists>rest. ch (fst (ConsulRegistry_Watch_loop n its (st, r, li, sl))) = ch st @ rest"
proof (induction its arbitrary: st r li sl)
  case Nil
  then show ?case by simp
next
  case (Cons it its)
  show ?case
  proof (cases "done_at_top it")
    case True
    then show ?thesis by simp
  next
    case False
    show ?thesis
    proof (cases "Health_Service n True (catalog it)")
      case (Inl err)
      with False Cons show ?thesis by simp
    next
      case (Inr p)
      obtain services meta where p: "p = (services, meta)" by (cases p)
      show ?thesis
      proof (cases "send it")
        case Sent
        from Cons [of "st\<lparr>ch := ch st @ [map entry_info services]\<rparr>" "r\<lparr>consul_client := catalog it\<rparr>" meta sl]
        obtain rest where "ch (fst (ConsulRegistry_Watch_loop n its
              (st\<lparr>ch := ch st @ [map entry_info services]\<rparr>, r\<lparr>consul_client := catalog it\<rparr>, meta, sl)))
              = ch st @ [map entry_info services] @ rest"
          by auto
        with False Inr p Sent show ?thesis by simp
      next
        case CtxDone
        with False Inr p show ?thesis by simp
      qed
    qed
  qed
qed

lemma fmt_d_examples:
  "fmt_d 9090 = ''9090''" "fmt_d 9091 = ''9091''" "fmt_d 9443 = ''9443''"
  by (simp_all add: fmt_d_def dec_nat.simps digit_char_def; code_simp)+

lemma namespace_ok_grpc_kit: "namespace_ok ''/grpc-kit''"
  by code_simp

lemma example_keys:
  "buildServiceKey ''/grpc-kit'' ''greeter'' ''10.0.0.5'' 9090 = ''/grpc-kit/services/greeter/10.0.0.5:9090''"
  "buildServiceKey ''/grpc-kit'' ''greeter'' ''10.0.0.5'' 9091 = ''/grpc-kit/services/greeter/10.0.0.5:9091''"
  "buildServiceKey ''/grpc-kit'' ''billing'' ''10.0.0.7'' 9443 = ''/grpc-kit/services/billing/10.0.0.7:9443''"
  "buildServicePrefix ''/grpc-kit'' ''greeter'' = ''/grpc-kit/services/greeter/''"
proof -
  have g: "plain_seg ''greeter''" and b: "plain_seg ''billing''" by code_simp+
  have a5: "CHR ''/'' \<notin> set ''10.0.0.5''" and a7: "CHR ''/'' \<notin> set ''10.0.0.7''" by simp_all
  show "buildServiceKey ''/grpc-kit'' ''greeter'' ''10.0.0.5'' 9090 = ''/grpc-kit/services/greeter/10.0.0.5:9090''"
    by (simp add: buildServiceKey_plain [OF namespace_ok_grpc_kit g a5] fmt_d_examples)
  show "buildServiceKey ''/grpc-kit'' ''greeter'' ''10.0.0.5'' 9091 = ''/grpc-kit/services/greeter/10.0.0.5:9091''"
    by (simp add: buildServiceKey_plain [OF namespace_ok_grpc_kit g a5] fmt_d_examples)
  show "buildServiceKey ''/grpc-kit'' ''billing'' ''10.0.0.7'' 9443 = ''/grpc-kit/services/billing/10.0.0.7:9443''"
    by (simp add: buildServiceKey_plain [OF namespace_ok_grpc_kit b a7] fmt_d_examples)
  show "buildServicePrefix ''/grpc-kit'' ''greeter'' = ''/grpc-kit/services/greeter/''"
    by (simp add: buildServicePrefix_plain [OF namespace_ok_grpc_kit g])
qed

lemma registry_two_eq:
  "registry_two =
     \<lparr>etcd_client =
        \<lparr>kvs = [(''/grpc-kit/services/greeter/10.0.0.5:9090'', Encoded greeter, 1),
                (''/grpc-kit/services/billing/10.0.0.7:9443'', Encoded billing, 2),
                (''/grpc-kit/services/greeter/10.0.0.5:9091'', Encoded greeter2, 3)],
         leases = [3, 2, 1], next_lease = 4, failing = []\<rparr>,
      etcd_logger = [(InfoLevel, ''Service registered''), (InfoLevel, ''Service registered''),
                     (InfoLevel, ''Service registered'')],
      etcd_namespace = ''/grpc-kit'', ttl = 30, leaseID = 3\<rparr>"
proof -
  have n0: "failing (etcd_client registry0) = []"
    by (simp add: registry0_def NewEtcdRegistry_def etcd0_def)
  have a: "registry_a =
     \<lparr>etcd_client =
        \<lparr>kvs = [(''/grpc-kit/services/greeter/10.0.0.5:9090'', Encoded greeter, 1)],
         leases = [1], next_lease = 2, failing = []\<rparr>,
      etcd_logger = [(InfoLevel, ''Service registered'')],
      etcd_namespace = ''/grpc-kit'', ttl = 30, leaseID = 1\<rparr>"
    unfolding registry_a_def Register_ok [OF n0]
    by (simp add: registry0_def NewEtcdRegistry_def etcd0_def log_to_def greeter_def example_keys)
  have na: "failing (etcd_client registry_a) = []" by (simp add: a)
  have b: "registry_b =
     \<lparr>etcd_client =
        \<lparr>kvs = [(''/grpc-kit/services/greeter/10.0.0.5:9090'', Encoded greeter, 1),
                (''/grpc-kit/services/billing/10.0.0.7:9443'', Encoded billing, 2)],
         leases = [2, 1], next_lease = 3, failing = []\<rparr>,
      etcd_logger = [(InfoLevel, ''Service registered''), (InfoLevel, ''Service registered'')],
      etcd_namespace = ''/grpc-kit'', ttl = 30, leaseID = 2\<rparr>"
    unfolding registry_b_def Register_ok [OF na]
    by (simp add: a log_to_def billing_def example_keys)
  have nb: "failing (etcd_client registry_b) = []" by (simp add: b)
  show ?thesis
    unfolding registry_two_def Register_ok [OF nb]
    by (simp add: b log_to_def greeter2_def example_keys)
qed

lemma etcd_Discover_two:
  "EtcdRegistry_Discover ''greeter'' registry_two = (Inr [greeter, greeter2], registry_two)"
  by (simp add: EtcdRegistry_Discover_def Get_WithPrefix_def registry_two_eq example_keys)

lemma consul_Discover_two:
  "ConsulRegistry_Discover ''greeter'' consul_registry_two = (Inr [greeter, greeter2], consul_registry_two)"
  by (simp add: ConsulRegistry_Discover_def Health_Service_def consul_registry_two_def catalog_two_def
      entry_info_def greeter_def greeter2_def)

text \<open>
  Claim C6. For both backends: when the \<^verbatim>\<open>Discover\<close> query at subscribe time
  returns a list, \<^verbatim>\<open>Watch\<close> returns an open stream on which that list has already
  been sent, before the goroutine has seen any event of the backend; and whatever the
  goroutine does afterwards, that list stays the first snapshot of the stream.
\<close>

theorem Watch_first_snapshot:
  "(EtcdRegistry_Discover n r = (Inr services, r1) \<longrightarrow>
      EtcdRegistry_Watch n r = (Inr \<lparr>ch = [services], ch_closed = False\<rparr>, r1) \<and>
      (\<exists>rest. ch (fst (EtcdRegistry_Watch_loop n evs (\<lparr>ch = [services], ch_closed = False\<rparr>, r1)))
                = services # rest)) \<and>
   (ConsulRegistry_Discover n q = (Inr services', q1) \<longrightarrow>
      ConsulRegistry_Watch n q = (Inr \<lparr>ch = [services'], ch_closed = False\<rparr>, q1) \<and>
      (\<exists>rest. ch (fst (ConsulRegistry_Watch_loop n its (\<lparr>ch = [services'], ch_closed = False\<rparr>, q1, 0, 0)))
                = services' # rest))"
  using etcd_loop_extends [of n evs "\<lparr>ch = [services], ch_closed = False\<rparr>" r1]
    consul_loop_extends [of n its "\<lparr>ch = [services'], ch_closed = False\<rparr>" q1 0 0]
  by (simp add: EtcdRegistry_Watch_def ConsulRegistry_Watch_def)

theorem Watch_first_snapshot_witness:
  "EtcdRegistry_Discover ''greeter'' registry_two = (Inr [greeter, greeter2], registry_two) \<and>
   EtcdRegistry_Watch ''greeter'' registry_two
     = (Inr \<lparr>ch = [ [greeter, greeter2] ], ch_closed = False\<rparr>, registry_two) \<and>
   (\<exists>rest. ch (fst (EtcdRegistry_Watch_loop ''greeter'' [WatchResponse None (etcd_client registry_a) Sent]
                     (\<lparr>ch = [ [greeter, greeter2] ], ch_closed = False\<rparr>, registry_two)))
            = [greeter, greeter2] # rest) \<and>
   ConsulRegistry_Discover ''greeter'' consul_registry_two = (Inr [greeter, greeter2], consul_registry_two) \<and>
   ConsulRegistry_Watch ''greeter'' consul_registry_two
     = (Inr \<lparr>ch = [ [greeter, greeter2] ], ch_closed = False\<rparr>, consul_registry_two) \<and>
   (\<exists>rest. ch (fst (ConsulRegistry_Watch_loop ''greeter''
                     [\<lparr>done_at_top = False, catalog = catalog_two, send = Sent\<rparr>]
                     (\<lparr>ch = [ [greeter, greeter2] ], ch_closed = False\<rparr>, consul_registry_two, 0, 0)))
            = [greeter, greeter2] # rest)"
  using Watch_first_snapshot [of "''greeter''" registry_two "[greeter, greeter2]" registry_two
      "[WatchResponse None (etcd_client registry_a) Sent]"
      consul_registry_two "[greeter, greeter2]" consul_registry_two
      "[\<lparr>done_at_top = False, catalog = catalog_two, send = Sent\<rparr>]"]
    etcd_Discover_two consul_Discover_two
  by blast

section \<open>Watch: errors of the backend\<close>

lemma etcd_watch_error:
  "EtcdRegistry_Watch_loop n (WatchResponse (Some e) c sel # evs) (st, r) =
     (st\<lparr>ch_closed := True\<rparr>, r\<lparr>etcd_logger := log_to (etcd_logger r) ErrorLevel ''Watch error''\<rparr>)"
  by simp

lemma etcd_watch_discover_error:
  "OpGet \<in> set (failing c) \<Longrightarrow>
   EtcdRegistry_Watch_loop n (WatchResponse None c sel # evs) (st, r) =
     EtcdRegistry_Watch_loop n evs
       (st, r\<lparr>etcd_client := c,
              etcd_logger := log_to (etcd_logger r) ErrorLevel ''Failed to discover services on watch''\<rparr>)"
  by (simp add: EtcdRegistry_Discover_def Get_WithPrefix_def)

lemma consul_watch_error:
  "\<not> done_at_top it \<Longrightarrow> unreachable (catalog it) \<Longrightarrow>
   ConsulRegistry_Watch_loop n (it # its) (st, r, li, sl) =
     ConsulRegistry_Watch_loop n its
       (st, r\<lparr>consul_client := catalog it,
              consul_logger := log_to (consul_logger r) ErrorLevel ''Failed to watch services''\<rparr>, li, sl + 5)"
  by (simp add: Health_Service_def)

lemma consul_watch_stays_open:
  "\<not> ch_closed st \<Longrightarrow> \<forall>it\<in>set its. \<not> done_at_top it \<and> send it = Sent \<Longrightarrow>
   \<not> ch_closed (fst (ConsulRegistry_Watch_loop n its (st, r, li, sl)))"
proof (induction its arbitrary: st r li sl)
  case Nil
  then show ?case by simp
next
  case (Cons it its)
  then have nd: "\<not> done_at_top it" and s: "send it = Sent"
    and rest: "\<forall>it\<in>set its. \<not> done_at_top it \<and> send it = Sent"
    by simp_all
  show ?case
  proof (cases "Health_Service n True (catalog it)")
    case (Inl err)
    with nd Cons.IH [OF Cons.prems(1) rest] show ?thesis by simp
  next
    case (Inr p)
    obtain services meta where p: "p = (services, meta)" by (cases p)
    have "\<not> ch_closed (st\<lparr>ch := ch st @ [map entry_info services]\<rparr>)"
      using Cons.prems(1) by simp
    from Cons.IH [OF this rest] nd s Inr p show ?thesis by simp
  qed
qed

text \<open>
  Claim C1 says that, for both backends, an error in one iteration of the watch loop is
  logged and retried and that only the caller's cancellation ends the stream. The catalog
  backend does that (\<open>consul_watch_error\<close>, \<open>consul_watch_stays_open\<close>). In the
  lease-store backend a failed \<^verbatim>\<open>Discover\<close> is logged and the goroutine goes on to
  wait for the next watch response, without a delay and without asking again
  (\<open>etcd_watch_discover_error\<close>); and a watch response that carries an error makes the
  goroutine log it and return, which closes the stream although nothing was cancelled:
  here on the open stream for \<^verbatim>\<open>greeter\<close>, with one such response and no
  cancellation among the events.
\<close>

theorem etcd_watch_error_closes_stream:
  "EtcdRegistry_Watch ''greeter'' registry_two
     = (Inr \<lparr>ch = [ [greeter, greeter2] ], ch_closed = False\<rparr>, registry_two) \<and>
   EtcdRegistry_Watch_loop ''greeter''
     [WatchResponse (Some ''etcdserver: mvcc: required revision has been compacted'')
        (etcd_client registry_two) Sent]
     (\<lparr>ch = [ [greeter, greeter2] ], ch_closed = False\<rparr>, registry_two)
     = (\<lparr>ch = [ [greeter, greeter2] ], ch_closed = True\<rparr>,
        registry_two\<lparr>etcd_logger := etcd_logger registry_two @ [(ErrorLevel, ''Watch error'')]\<rparr>)"
  by (simp add: EtcdRegistry_Watch_def etcd_Discover_two log_to_def)

section \<open>\<^verbatim>\<open>ServiceManager\<close>: deregistration\<close>

lemma registered_then_cut_services:
  "sm_services registered_then_cut = [(service_key greeter, greeter)]"
  by (simp add: registered_then_cut_def RegisterService_def EtcdRegistry_methods_def
      EtcdRegistry_Register_def NewServiceManager_def NewEtcdRegistry_def etcd0_def
      Grant_def Put_def KeepAlive_def Let_def split: prod.splits)

lemma registered_then_cut_Deregister:
  "fst (Deregister EtcdRegistry_methods greeter (sm_registry registered_then_cut))
     = Some ''failed to deregister service: etcdserver: request timed out''"
  by (simp add: registered_then_cut_def RegisterService_def EtcdRegistry_methods_def
      EtcdRegistry_Register_def EtcdRegistry_Deregister_def NewServiceManager_def NewEtcdRegistry_def
      etcd0_def Grant_def Put_def KeepAlive_def Revoke_def Delete_def unavailable_def Let_def
      split: prod.splits)

lemma mock_registered_eq:
  "mock_registered =
     \<lparr>sm_registry = [(''greeter'', [greeter])], sm_logger = [],
      sm_services = [(service_key greeter, greeter)]\<rparr>"
  by (simp add: mock_registered_def RegisterService_def MockRegistry_methods_def
      MockRegistry_Register_def mock_services_def NewServiceManager_def greeter_def)

text \<open>
  Claim C3, as the code has it. When the registry's \<^verbatim>\<open>Deregister\<close> succeeds,
  \<^verbatim>\<open>DeregisterService\<close> removes the record's key from the map of registered services
  and returns nil. When it fails, \<^verbatim>\<open>DeregisterService\<close> returns that error and
  leaves the map as it was: the record stays registered.
\<close>

theorem DeregisterService_cases:
  "(Deregister I service (sm_registry sm) = (None, r1) \<longrightarrow>
      DeregisterService I service sm =
        (None, sm\<lparr>sm_registry := r1,
                  sm_services := AList.delete (service_key service) (sm_services sm)\<rparr>) \<and>
      map_of (sm_services (snd (DeregisterService I service sm))) (service_key service) = None) \<and>
   (Deregister I service (sm_registry sm) = (Some err, r1) \<longrightarrow>
      DeregisterService I service sm = (Some err, sm\<lparr>sm_registry := r1\<rparr>) \<and>
      sm_services (snd (DeregisterService I service sm)) = sm_services sm)"
  by (simp add: DeregisterService_def delete_conv')

theorem DeregisterService_cases_witness:
  "Deregister MockRegistry_methods greeter (sm_registry mock_registered) = (None, [(''greeter'', [])]) \<and>
   map_of (sm_services mock_registered) (service_key greeter) = Some greeter \<and>
   map_of (sm_services (snd (DeregisterService MockRegistry_methods greeter mock_registered)))
     (service_key greeter) = None \<and>
   Deregister EtcdRegistry_methods greeter (sm_registry registered_then_cut)
     = (Some ''failed to deregister service: etcdserver: request timed out'',
        snd (Deregister EtcdRegistry_methods greeter (sm_registry registered_then_cut))) \<and>
   fst (DeregisterService EtcdRegistry_methods greeter registered_then_cut)
     = Some ''failed to deregister service: etcdserver: request timed out'' \<and>
   sm_services (snd (DeregisterService EtcdRegistry_methods greeter registered_then_cut))
     = sm_services registered_then_cut"
proof -
  have 1: "Deregister MockRegistry_methods greeter (sm_registry mock_registered) = (None, [(''greeter'', [])])"
    by (simp add: mock_registered_eq MockRegistry_methods_def MockRegistry_Deregister_def
        mock_services_def greeter_def)
  have 2: "map_of (sm_services mock_registered) (service_key greeter) = Some greeter"
    by (simp add: mock_registered_eq)
  have 4: "Deregister EtcdRegistry_methods greeter (sm_registry registered_then_cut)
     = (Some ''failed to deregister service: etcdserver: request timed out'',
        snd (Deregister EtcdRegistry_methods greeter (sm_registry registered_then_cut)))"
    using registered_then_cut_Deregister
    by (cases "Deregister EtcdRegistry_methods greeter (sm_registry registered_then_cut)") simp
  from DeregisterService_cases [of MockRegistry_methods greeter mock_registered "[(''greeter'', [])]"] 1
  have 3: "map_of (sm_services (snd (DeregisterService MockRegistry_methods greeter mock_registered)))
     (service_key greeter) = None"
    by blast
  from DeregisterService_cases [of EtcdRegistry_methods greeter registered_then_cut
      "snd (Deregister EtcdRegistry_methods greeter (sm_registry registered_then_cut))"
      "''failed to deregister service: etcdserver: request timed out''"] 4
  have 5: "fst (DeregisterService EtcdRegistry_methods greeter registered_then_cut)
     = Some ''failed to deregister service: etcdserver: request timed out''"
    and 6: "sm_services (snd (DeregisterService EtcdRegistry_methods greeter registered_then_cut))
     = sm_services registered_then_cut"
    by simp_all
  from 1 2 3 4 5 6 show ?thesis by blast
qed

text \<open>
  The claim as stated, removal also when the backend fails, does not hold: with the
  cluster out of reach \<^verbatim>\<open>DeregisterService\<close> returns the error and \<^verbatim>\<open>greeter\<close>
  is still in the map.
\<close>

theorem DeregisterService_counterexample:
  "map_of (sm_services registered_then_cut) (service_key greeter) = Some greeter \<and>
   fst (DeregisterService EtcdRegistry_methods greeter registered_then_cut)
     = Some ''failed to deregister service: etcdserver: request timed out'' \<and>
   map_of (sm_services (snd (DeregisterService EtcdRegistry_methods greeter registered_then_cut)))
     (service_key greeter) = Some greeter"
proof -
  obtain e r1 where d: "Deregister EtcdRegistry_methods greeter (sm_registry registered_then_cut) = (e, r1)"
    by (cases "Deregister EtcdRegistry_methods greeter (sm_registry registered_then_cut)")
  with registered_then_cut_Deregister
  have e: "e = Some ''failed to deregister service: etcdserver: request timed out''" by simp
  from d e show ?thesis
    by (simp add: DeregisterService_def registered_then_cut_services)
qed

section \<open>Shutdown\<close>

lemma length_Deregister_calls: "length (fst (Deregister_calls I svcs r)) = length svcs"
proof (induction svcs arbitrary: r)
  case Nil
  then show ?case by simp
next
  case (Cons s svcs)
  obtain e r1 where d: "Deregister I s r = (e, r1)" by (cases "Deregister I s r")
  obtain es r2 where c: "Deregister_calls I svcs r1 = (es, r2)"
    by (cases "Deregister_calls I svcs r1")
  from Cons [of r1] c have "length es = length svcs" by simp
  with d c show ?case by simp
qed

lemma length_Close_calls: "length (fst (Close_calls conns g)) = length conns"
proof (induction conns arbitrary: g)
  case Nil
  then show ?case by simp
next
  case (Cons conn conns)
  obtain e g1 where d: "ClientConn_Close conn g = (e, g1)" by (cases "ClientConn_Close conn g")
  obtain es g2 where c: "Close_calls conns g1 = (es, g2)"
    by (cases "Close_calls conns g1")
  from Cons [of g1] c have "length es = length conns" by simp
  with d c show ?case by simp
qed

lemma replicate_error_shift: "(lg @ [x]) @ replicate k x = lg @ replicate (Suc k) x"
  by (simp add: replicate_app_Cons_same)

lemma deregister_each_calls:
  "deregister_each I svcs (r, lg) =
     (snd (Deregister_calls I (map snd svcs) r),
      lg @ replicate (failures (fst (Deregister_calls I (map snd svcs) r)))
             (ErrorLevel, ''Failed to deregister service''))"
proof (induction svcs arbitrary: r lg)
  case Nil
  then show ?case by (simp add: failures_def)
next
  case (Cons a svcs)
  obtain k s where a: "a = (k, s)" by (cases a)
  obtain e r1 where d: "Deregister I s r = (e, r1)" by (cases "Deregister I s r")
  obtain es r2 where c: "Deregister_calls I (map snd svcs) r1 = (es, r2)"
    by (cases "Deregister_calls I (map snd svcs) r1")
  show ?case
  proof (cases e)
    case None
    with a d c Cons [of r1 lg] show ?thesis by (simp add: failures_def)
  next
    case (Some err)
    with a d c Cons [of r1 "log_to lg ErrorLevel ''Failed to deregister service''"]
    show ?thesis by (simp add: failures_def log_to_def replicate_app_Cons_same)
  qed
qed

lemma close_each_calls:
  "close_each clients (lg, g) =
     (lg @ replicate (failures (fst (Close_calls (map snd clients) g)))
             (ErrorLevel, ''Failed to close client connection''),
      snd (Close_calls (map snd clients) g))"
proof (induction clients arbitrary: lg g)
  case Nil
  then show ?case by (simp add: failures_def)
next
  case (Cons a clients)
  obtain n conn where a: "a = (n, conn)" by (cases a)
  obtain e g1 where d: "ClientConn_Close conn g = (e, g1)" by (cases "ClientConn_Close conn g")
  obtain es g2 where c: "Close_calls (map snd clients) g1 = (es, g2)"
    by (cases "Close_calls (map snd clients) g1")
  show ?case
  proof (cases e)
    case None
    with a d c Cons [of lg g1] show ?thesis by (simp add: failures_def)
  next
    case (Some err)
    with a d c Cons [of "log_to lg ErrorLevel ''Failed to close client connection''" g1]
    show ?thesis by (simp add: failures_def log_to_def replicate_app_Cons_same)
  qed
qed

text \<open>
  Claim C7. For every state of a \<^verbatim>\<open>ServiceManager\<close> and every behaviour of its
  registry: \<^verbatim>\<open>DeregisterAll\<close> returns nil and leaves the map of registered services
  empty; it has called \<^verbatim>\<open>Deregister\<close> once for each record of the map, so that the
  registry is as those calls left it; and its log has gained one error entry for each of
  those calls that failed, and nothing else. For every state of a \<^verbatim>\<open>ClientFactory\<close>
  and of the gRPC library: \<^verbatim>\<open>Close\<close> returns nil and leaves the cache empty; it
  has called \<^verbatim>\<open>Close\<close> once on each cached connection, so that the library is as
  those calls left it; and its log has gained one error entry for each of those calls
  that failed, and nothing else.
\<close>

theorem shutdown_total:
  "fst (DeregisterAll I sm) = None \<and>
   sm_services (snd (DeregisterAll I sm)) = [] \<and>
   length (fst (Deregister_calls I (map snd (sm_services sm)) (sm_registry sm))) = length (sm_services sm) \<and>
   sm_registry (snd (DeregisterAll I sm)) = snd (Deregister_calls I (map snd (sm_services sm)) (sm_registry sm)) \<and>
   sm_logger (snd (DeregisterAll I sm)) =
     sm_logger sm @ replicate (failures (fst (Deregister_calls I (map snd (sm_services sm)) (sm_registry sm))))
                      (ErrorLevel, ''Failed to deregister service'') \<and>
   fst (Close (f, g)) = None \<and>
   cf_clients (fst (snd (Close (f, g)))) = [] \<and>
   length (fst (Close_calls (map snd (cf_clients f)) g)) = length (cf_clients f) \<and>
   snd (snd (Close (f, g))) = snd (Close_calls (map snd (cf_clients f)) g) \<and>
   cf_logger (fst (snd (Close (f, g)))) =
     cf_logger f @ replicate (failures (fst (Close_calls (map snd (cf_clients f)) g)))
                     (ErrorLevel, ''Failed to close client connection'')"
  by (simp add: DeregisterAll_def Close_def deregister_each_calls close_each_calls
      length_Deregister_calls length_Close_calls)

text \<open>
  When every \<^verbatim>\<open>Deregister\<close> fails, the log gains one entry for each registered
  record, and \<^verbatim>\<open>DeregisterAll\<close> still returns nil with the map empty.
\<close>

lemma failures_all: "\<forall>e\<in>set es. e \<noteq> None \<Longrightarrow> failures es = length es"
  by (simp add: failures_def)

lemma Deregister_calls_all_fail:
  assumes "\<And>s r. fst (Deregister I s r) \<noteq> None"
  shows "\<forall>e\<in>set (fst (Deregister_calls I svcs r)). e \<noteq> None"
proof (induction svcs arbitrary: r)
  case Nil
  then show ?case by simp
next
  case (Cons s svcs)
  obtain e r1 where d: "Deregister I s r = (e, r1)" by (cases "Deregister I s r")
  obtain es r2 where c: "Deregister_calls I svcs r1 = (es, r2)"
    by (cases "Deregister_calls I svcs r1")
  from assms [of s r] d have "e \<noteq> None" by simp
  moreover from Cons [of r1] c have "\<forall>e\<in>set es. e \<noteq> None" by simp
  ultimately show ?case using d c by simp
qed

lemma DeregisterAll_all_fail:
  assumes "\<And>s r. fst (Deregister I s r) \<noteq> None"
  shows "DeregisterAll I sm =
           (None, sm\<lparr>sm_registry := snd (Deregister_calls I (map snd (sm_services sm)) (sm_registry sm)),
                     sm_logger := sm_logger sm @ replicate (length (sm_services sm))
                                    (ErrorLevel, ''Failed to deregister service''),
                     sm_services := []\<rparr>)"
  using failures_all [OF Deregister_calls_all_fail [OF assms, of "map snd (sm_services sm)" "sm_registry sm"]]
  by (simp add: DeregisterAll_def deregister_each_calls length_Deregister_calls)

text \<open>
  Shutdown with the cluster out of reach: \<^verbatim>\<open>DeregisterAll\<close> returns nil, empties
  the map and leaves one error entry in the log.
\<close>

lemma DeregisterAll_cluster_unreachable:
  "fst (DeregisterAll EtcdRegistry_methods registered_then_cut) = None \<and>
   sm_services (snd (DeregisterAll EtcdRegistry_methods registered_then_cut)) = [] \<and>
   sm_logger (snd (DeregisterAll EtcdRegistry_methods registered_then_cut))
     = [(ErrorLevel, ''Failed to deregister service'')]"
proof -
  obtain e r1 where d: "Deregister EtcdRegistry_methods greeter (sm_registry registered_then_cut) = (e, r1)"
    by (cases "Deregister EtcdRegistry_methods greeter (sm_registry registered_then_cut)")
  with registered_then_cut_Deregister
  have e: "e = Some ''failed to deregister service: etcdserver: request timed out''" by simp
  have l: "sm_logger registered_then_cut = []"
    by (simp add: registered_then_cut_def RegisterService_def EtcdRegistry_methods_def
      EtcdRegistry_Register_def NewServiceManager_def NewEtcdRegistry_def etcd0_def
      Grant_def Put_def KeepAlive_def Let_def split: prod.splits)
  from d e l show ?thesis
    by (simp add: DeregisterAll_def registered_then_cut_services log_to_def)
qed

section \<open>\<^verbatim>\<open>GetClient\<close>: the paths through one call\<close>

lemma GetClient_cached:
  "map_of (cf_clients f) n = Some conn \<Longrightarrow> GetClient I n (f, g) = (Return (Inr conn), f, g)"
  by (simp add: GetClient_def GetClient_read_def)

lemma GetClient_miss:
  "map_of (cf_clients f) n = None \<Longrightarrow> GetClient I n (f, g) =
    (case createConnection I n (f, g) of
             (Return (Inr conn), f1, g1) \<Rightarrow>
               (Return (Inr conn), f1\<lparr>cf_clients := AList.update n conn (cf_clients f1)\<rparr>, g1)
           | (res, f1, g1) \<Rightarrow> (res, f1, g1))"
  by (simp add: GetClient_def GetClient_read_def GetClient_write_def)

lemma createConnection_nil:
  "cf_registry f = None \<Longrightarrow> createConnection I n (f, g) = (Panic nil_dereference, f, g)"
  by (simp add: createConnection_def)

lemma createConnection_not_found:
  "cf_registry f = Some r \<Longrightarrow> Discover I n r = (Inr [], r1) \<Longrightarrow>
   createConnection I n (f, g) = (Return (Inl (''service '' @ n @ '' not found'')), f\<lparr>cf_registry := Some r1\<rparr>, g)"
  by (simp add: createConnection_def)

lemma createConnection_found:
  "cf_registry f = Some r \<Longrightarrow> Discover I n r = (Inr services, r1) \<Longrightarrow> services \<noteq> [] \<Longrightarrow>
   createConnection I n (f, g) =
     (case DialContext (''discovery:///'' @ n) (registerResolver n g) of
        (Inl err, g3) \<Rightarrow> (Return (Inl (''failed to dial '' @ n @ '': '' @ err)), f\<lparr>cf_registry := Some r1\<rparr>, g3)
      | (Inr conn, g3) \<Rightarrow>
          (Return (Inr conn),
           f\<lparr>cf_registry := Some r1,
             cf_logger := log_to (cf_logger f) InfoLevel ''Created gRPC client connection''\<rparr>, g3))"
  by (simp add: createConnection_def split: prod.splits sum.splits)

lemma GetClient_nil_registry:
  "cf_registry f = None \<Longrightarrow> map_of (cf_clients f) n = None \<Longrightarrow>
   GetClient I n (f, g) = (Panic nil_dereference, f, g)"
  by (simp add: GetClient_miss createConnection_nil)

lemma cached_then_gone_eq:
  "cached_then_gone =
    (\<lparr>cf_registry = Some [(''greeter'', [])],
      cf_logger = [(InfoLevel, ''Created gRPC client connection'')],
      cf_clients = [(''greeter'', \<lparr>conn_id = 0, conn_target = ''discovery:///greeter''\<rparr>)]\<rparr>,
     \<lparr>resolvers = [(''discovery'', \<lparr>b_serviceName = ''greeter''\<rparr>)],
      dial_calls = [''discovery:///greeter''],
      dialed = [\<lparr>conn_id = 0, conn_target = ''discovery:///greeter''\<rparr>],
      refused = [], closed_conns = []\<rparr>)"
  by (simp add: cached_then_gone_def GetClient_def GetClient_read_def GetClient_write_def
      createConnection_def NewClientFactory_def MockRegistry_methods_def MockRegistry_Register_def
      MockRegistry_Deregister_def MockRegistry_Discover_def mock_services_def greeter_def grpc0_def
      registerResolver_def resolver_Register_def Scheme_def DialContext_def log_to_def Let_def)

section \<open>A factory without a registry\<close>

text \<open>
  Claim C2 says that a factory with no registry skips the existence check, dials the name
  itself and never panics. The code calls \<^verbatim>\<open>f.registry.Discover\<close> before it looks at
  whether the registry is nil: on a factory built by \<^verbatim>\<open>NewClientFactory\<close> with a nil
  registry (what the application passes when no discovery type is configured), the first \<^verbatim>\<open>GetClient("localhost:9090")\<close> panics with a nil dereference,
  and nothing is dialled or cached.
\<close>

theorem GetClient_nil_registry_panics:
  "GetClient MockRegistry_methods ''localhost:9090'' (NewClientFactory None [], grpc0)
     = (Panic nil_dereference, NewClientFactory None [], grpc0)"
  by (rule GetClient_nil_registry) (simp_all add: NewClientFactory_def)

section \<open>A service without instances\<close>

text \<open>
  Claim C4, as the code has it. When a registry is configured, the name is not in the
  cache and \<^verbatim>\<open>Discover\<close> returns the empty list, \<^verbatim>\<open>GetClient\<close> returns the error
  \<^verbatim>\<open>service <name> not found\<close> and no connection; the cache and the gRPC library are
  left as they were, so no entry is created and nothing is dialled.
\<close>

theorem GetClient_not_found:
  assumes "cf_registry f = Some r" and "Discover I n r = (Inr [], r1)"
    and "map_of (cf_clients f) n = None"
  shows "GetClient I n (f, g) =
           (Return (Inl (''service '' @ n @ '' not found'')), f\<lparr>cf_registry := Some r1\<rparr>, g)"
  using assms by (simp add: GetClient_miss createConnection_not_found)

theorem GetClient_not_found_witness:
  "cf_registry (NewClientFactory (Some []) []) = Some [] \<and>
   Discover MockRegistry_methods ''unknown-svc'' [] = (Inr [], []) \<and>
   map_of (cf_clients (NewClientFactory (Some ([] :: MockRegistry)) [])) ''unknown-svc'' = None \<and>
   GetClient MockRegistry_methods ''unknown-svc'' (NewClientFactory (Some []) [], grpc0) =
     (Return (Inl ''service unknown-svc not found''), NewClientFactory (Some []) [], grpc0)"
proof -
  have 1: "cf_registry (NewClientFactory (Some ([] :: MockRegistry)) []) = Some []"
    by (simp add: NewClientFactory_def)
  have 2: "Discover MockRegistry_methods ''unknown-svc'' [] = (Inr [], [])"
    by (simp add: MockRegistry_methods_def MockRegistry_Discover_def mock_services_def)
  have 3: "map_of (cf_clients (NewClientFactory (Some ([] :: MockRegistry)) [])) ''unknown-svc'' = None"
    by (simp add: NewClientFactory_def)
  from GetClient_not_found [OF 1 2 3, of grpc0] 1 2 3 show ?thesis
    by (simp add: NewClientFactory_def)
qed

text \<open>
  Without the condition on the cache the claim fails: once a connection for
  \<^verbatim>\<open>greeter\<close> is cached, \<^verbatim>\<open>GetClient\<close> returns it although \<^verbatim>\<open>Discover\<close> now
  returns the empty list.
\<close>

theorem GetClient_not_found_counterexample:
  "cf_registry (fst cached_then_gone) = Some [(''greeter'', [])] \<and>
   Discover MockRegistry_methods ''greeter'' [(''greeter'', [])] = (Inr [], [(''greeter'', [])]) \<and>
   fst (GetClient MockRegistry_methods ''greeter'' cached_then_gone) =
     Return (Inr \<lparr>conn_id = 0, conn_target = ''discovery:///greeter''\<rparr>)"
  by (simp add: cached_then_gone_eq GetClient_def GetClient_read_def
      MockRegistry_methods_def MockRegistry_Discover_def mock_services_def)

section \<open>The resolver builder\<close>

lemma Build_ignores_target: "r_serviceName (Build b target cc) = b_serviceName b"
  by (simp add: Build_def)

lemma map_of_registerResolver:
  "map_of (resolvers (registerResolver n g)) ''discovery'' = Some \<lparr>b_serviceName = n\<rparr>"
  by (simp add: registerResolver_def resolver_Register_def Scheme_def update_conv')

lemma resolvers_DialContext: "resolvers (snd (DialContext t g)) = resolvers g"
  by (simp add: DialContext_def Let_def)

lemma GetClient_registers:
  assumes "cf_registry f = Some r" and "map_of (cf_clients f) n = None"
    and "Discover I n r = (Inr services, r1)" and "services \<noteq> []"
  shows "resolvers (snd (snd (GetClient I n (f, g)))) = resolvers (registerResolver n g)"
proof -
  obtain res g3 where d: "DialContext (''discovery:///'' @ n) (registerResolver n g) = (res, g3)"
    by (cases "DialContext (''discovery:///'' @ n) (registerResolver n g)")
  with resolvers_DialContext [of "''discovery:///'' @ n" "registerResolver n g"]
  have "resolvers g3 = resolvers (registerResolver n g)" by simp
  with d assms show ?thesis
    by (cases res) (simp_all add: GetClient_miss createConnection_found)
qed

lemma both_registered_eq: "both_registered = [(''greeter'', [greeter]), (''billing'', [billing])]"
  by (simp add: both_registered_def MockRegistry_Register_def mock_services_def greeter_def billing_def)

lemma greeter_connected_eq:
  "greeter_connected =
    (\<lparr>cf_registry = Some both_registered,
      cf_logger = [(InfoLevel, ''Created gRPC client connection'')],
      cf_clients = [(''greeter'', \<lparr>conn_id = 0, conn_target = ''discovery:///greeter''\<rparr>)]\<rparr>,
     \<lparr>resolvers = [(''discovery'', \<lparr>b_serviceName = ''greeter''\<rparr>)],
      dial_calls = [''discovery:///greeter''],
      dialed = [\<lparr>conn_id = 0, conn_target = ''discovery:///greeter''\<rparr>],
      refused = [], closed_conns = []\<rparr>)"
  by (simp add: greeter_connected_def both_registered_eq GetClient_def GetClient_read_def
      GetClient_write_def createConnection_def NewClientFactory_def MockRegistry_methods_def
      MockRegistry_Discover_def mock_services_def grpc0_def registerResolver_def
      resolver_Register_def Scheme_def DialContext_def log_to_def Let_def)

text \<open>
  Claim C10, as the code has it. \<^verbatim>\<open>Build\<close> gives the resolver the service name the
  builder captured, whatever the target of the connection is. A \<^verbatim>\<open>GetClient\<close> that
  misses the cache and gets past the existence check (a registry is configured and
  \<^verbatim>\<open>Discover\<close> returns at least one instance) registers a new builder for its name
  under the scheme \<^verbatim>\<open>discovery\<close>, in place of the builder that was there, whether
  the dial that follows succeeds or not.
\<close>

theorem resolver_builder_overwritten:
  "r_serviceName (Build b target cc) = b_serviceName b \<and>
   (cf_registry f = Some r \<and> map_of (cf_clients f) n = None \<and>
    Discover I n r = (Inr services, r1) \<and> services \<noteq> [] \<longrightarrow>
    map_of (resolvers (snd (snd (GetClient I n (f, g))))) ''discovery'' = Some \<lparr>b_serviceName = n\<rparr>)"
  using GetClient_registers [of f r n I services r1 g]
  by (simp add: Build_ignores_target map_of_registerResolver)

theorem resolver_builder_overwritten_witness:
  "cf_registry (fst greeter_connected) = Some both_registered \<and>
   map_of (cf_clients (fst greeter_connected)) ''billing'' = None \<and>
   Discover MockRegistry_methods ''billing'' both_registered = (Inr [billing], both_registered) \<and>
   [billing] \<noteq> [] \<and>
   map_of (resolvers (snd greeter_connected)) ''discovery'' = Some \<lparr>b_serviceName = ''greeter''\<rparr> \<and>
   map_of (resolvers (snd (snd (GetClient MockRegistry_methods ''billing'' greeter_connected)))) ''discovery''
     = Some \<lparr>b_serviceName = ''billing''\<rparr> \<and>
   r_serviceName (Build \<lparr>b_serviceName = ''billing''\<rparr> ''greeter'' 0) = ''billing''"
proof -
  have 1: "cf_registry (fst greeter_connected) = Some both_registered"
    by (simp add: greeter_connected_eq)
  have 2: "map_of (cf_clients (fst greeter_connected)) ''billing'' = None"
    by (simp add: greeter_connected_eq)
  have 3: "Discover MockRegistry_methods ''billing'' both_registered = (Inr [billing], both_registered)"
    by (simp add: MockRegistry_methods_def MockRegistry_Discover_def mock_services_def both_registered_eq)
  have 4: "[billing] \<noteq> []" by simp
  have 5: "map_of (resolvers (snd greeter_connected)) ''discovery'' = Some \<lparr>b_serviceName = ''greeter''\<rparr>"
    by (simp add: greeter_connected_eq)
  note t = resolver_builder_overwritten [of "\<lparr>b_serviceName = ''billing''\<rparr>" "''greeter''" 0
      "fst greeter_connected" both_registered "''billing''" MockRegistry_methods "[billing]"
      both_registered "snd greeter_connected"]
  from t 1 2 3 have 6: "map_of (resolvers (snd (snd (GetClient MockRegistry_methods ''billing'' greeter_connected)))) ''discovery''
     = Some \<lparr>b_serviceName = ''billing''\<rparr>"
    by simp
  from t have 7: "r_serviceName (Build \<lparr>b_serviceName = ''billing''\<rparr> ''greeter'' 0) = ''billing''"
    by simp
  from 1 2 3 4 5 6 7 show ?thesis by blast
qed

text \<open>
  Not every cache miss registers a builder: a miss that ends in \<^verbatim>\<open>service not found\<close>
  returns before \<^verbatim>\<open>registerResolver\<close>, and the builder of the earlier client stays.
\<close>

theorem resolver_builder_overwritten_counterexample:
  "map_of (cf_clients (fst cached_then_gone)) ''billing'' = None \<and>
   fst (GetClient MockRegistry_methods ''billing'' cached_then_gone) =
     Return (Inl ''service billing not found'') \<and>
   map_of (resolvers (snd (snd (GetClient MockRegistry_methods ''billing'' cached_then_gone)))) ''discovery''
     = Some \<lparr>b_serviceName = ''greeter''\<rparr>"
  by (simp add: cached_then_gone_eq GetClient_def GetClient_read_def GetClient_write_def
      createConnection_def MockRegistry_methods_def MockRegistry_Discover_def mock_services_def)

text \<open>
  In general: a miss that does not get past the existence check, because the registry is
  nil, \<^verbatim>\<open>Discover\<close> fails or \<^verbatim>\<open>Discover\<close> returns the empty list, leaves the gRPC
  library, and so the table of resolver builders, as it was.
\<close>

lemma GetClient_miss_registers_nothing:
  assumes "map_of (cf_clients f) n = None"
    and "case cf_registry f of
           None \<Rightarrow> True
         | Some r \<Rightarrow> (case fst (Discover I n r) of Inl e \<Rightarrow> True | Inr services \<Rightarrow> services = [])"
  shows "snd (snd (GetClient I n (f, g))) = g"
  using assms
  by (auto simp: GetClient_miss createConnection_def split: option.splits prod.splits sum.splits)

section \<open>One connection per cache key\<close>

lemma createConnection_result:
  assumes "createConnection I n (f, g) = (res, f1, g1)"
  shows "cf_clients f1 = cf_clients f \<and>
         ((\<exists>c. res = Return (Inr c) \<and> dialed g1 = dialed g @ [c] \<and>
               conn_target c = ''discovery:///'' @ n \<and>
               dial_calls g1 = dial_calls g @ [''discovery:///'' @ n])
          \<or> ((\<forall>c. res \<noteq> Return (Inr c)) \<and> dialed g1 = dialed g))"
  using assms
  by (auto simp: createConnection_def DialContext_def registerResolver_def resolver_Register_def Let_def
      split: option.splits prod.splits sum.splits if_splits)

lemma GetClient_write_result:
  assumes w: "GetClient_write I n (f, g) = (res, f1, g1)"
  shows "(map_of (cf_clients f) n = None \<and>
          (\<exists>c. res = Return (Inr c) \<and> dialed g1 = dialed g @ [c] \<and>
                conn_target c = ''discovery:///'' @ n \<and>
                dial_calls g1 = dial_calls g @ [''discovery:///'' @ n] \<and>
                (\<forall>m. map_of (cf_clients f1) m = (if m = n then Some c else map_of (cf_clients f) m))))
         \<or> (dialed g1 = dialed g \<and> cf_clients f1 = cf_clients f \<and>
             (\<forall>c. res = Return (Inr c) \<longrightarrow>
                  map_of (cf_clients f) n = Some c \<and> dial_calls g1 = dial_calls g))"
proof (cases "map_of (cf_clients f) n")
  case (Some conn)
  with w have "res = Return (Inr conn)" "f1 = f" "g1 = g"
    by (simp_all add: GetClient_write_def)
  with Some show ?thesis by simp
next
  case None
  obtain res' f' g' where cc: "createConnection I n (f, g) = (res', f', g')"
    by (cases "createConnection I n (f, g)")
  note r = createConnection_result [OF cc]
  from r have cl: "cf_clients f' = cf_clients f" by blast
  from r consider
      (ok) c where "res' = Return (Inr c)" "dialed g' = dialed g @ [c]"
        "conn_target c = ''discovery:///'' @ n" "dial_calls g' = dial_calls g @ [''discovery:///'' @ n]"
    | (fail) "\<forall>c. res' \<noteq> Return (Inr c)" "dialed g' = dialed g"
    by blast
  then show ?thesis
  proof cases
    case ok
    with w None cc have res: "res = Return (Inr c)" and g1: "g1 = g'"
      and f1: "f1 = f'\<lparr>cf_clients := AList.update n c (cf_clients f')\<rparr>"
      by (simp_all add: GetClient_write_def)
    have m: "map_of (cf_clients f1) m = (if m = n then Some c else map_of (cf_clients f) m)" for m
      by (simp add: f1 cl update_conv')
    from None res g1 ok m show ?thesis by simp
  next
    case fail
    with w None cc have "res = res'" "f1 = f'" "g1 = g'"
      by (auto simp: GetClient_write_def split: outcome.splits sum.splits)
    with fail cl show ?thesis by simp
  qed
qed

lemma created_for_snoc:
  "conn_target c = ''discovery:///'' @ n \<Longrightarrow>
   created_for m (new @ [c]) = created_for m new @ (if m = n then [c] else [])"
  by (simp add: created_for_def)

lemma cache_inv_step:
  assumes inv: "cache_inv f0 g0 (cs, f, g)" and i: "i < length cs"
    and st: "caller_step I (cs ! i) (f, g) = (c1, f1, g1)"
  shows "cache_inv f0 g0 (cs[i := c1], f1, g1)"
proof -
  from inv obtain new where d: "dialed g = dialed g0 @ new"
    and cr: "\<And>n. created_for n new =
              (case map_of (cf_clients f) n of
                 None \<Rightarrow> []
               | Some c \<Rightarrow> if map_of (cf_clients f0) n = None then [c] else [])"
    and keep: "\<And>n c. map_of (cf_clients f0) n = Some c \<Longrightarrow> map_of (cf_clients f) n = Some c"
    and h1: "\<And>n c. Returned n (Return (Inr c)) \<in> set cs \<Longrightarrow> map_of (cf_clients f) n = Some c"
    by (auto simp: cache_inv_def)
  have mem: "x \<in> set (cs[i := c1]) \<Longrightarrow> x = c1 \<or> x \<in> set cs" for x
    using set_update_subset_insert [of cs i c1] by auto
  have same: "cache_inv f0 g0 (cs[i := c1], f, g)"
    if "\<And>n c. c1 = Returned n (Return (Inr c)) \<Longrightarrow> map_of (cf_clients f) n = Some c"
  proof -
    have "map_of (cf_clients f) n = Some c" if r: "Returned n (Return (Inr c)) \<in> set (cs[i := c1])" for n c
      using mem [OF r] that h1 \<open>\<And>n c. c1 = Returned n (Return (Inr c)) \<Longrightarrow> map_of (cf_clients f) n = Some c\<close>
      by (metis)
    with d cr keep show ?thesis by (auto simp: cache_inv_def)
  qed
  show ?thesis
  proof (cases "cs ! i")
    case (Calling n)
    show ?thesis
    proof (cases "map_of (cf_clients f) n")
      case None
      with st Calling have e: "c1 = Waiting n" "f1 = f" "g1 = g"
        by (simp_all add: caller_step_def GetClient_read_def)
      from same [of ] e show ?thesis by simp
    next
      case (Some conn)
      with st Calling have e: "c1 = Returned n (Return (Inr conn))" "f1 = f" "g1 = g"
        by (simp_all add: caller_step_def GetClient_read_def)
      from same Some e show ?thesis by simp
    qed
  next
    case (Waiting n)
    obtain res f' g' where w: "GetClient_write I n (f, g) = (res, f', g')"
      by (cases "GetClient_write I n (f, g)")
    with st Waiting have c1: "c1 = Returned n res" and e: "f1 = f'" "g1 = g'"
      by (simp_all add: caller_step_def)
    from GetClient_write_result [OF w] show ?thesis
    proof
      assume "map_of (cf_clients f) n = None \<and>
          (\<exists>c. res = Return (Inr c) \<and> dialed g' = dialed g @ [c] \<and>
                conn_target c = ''discovery:///'' @ n \<and>
                dial_calls g' = dial_calls g @ [''discovery:///'' @ n] \<and>
                (\<forall>m. map_of (cf_clients f') m = (if m = n then Some c else map_of (cf_clients f) m)))"
      then obtain c where miss: "map_of (cf_clients f) n = None" and res: "res = Return (Inr c)"
        and dg: "dialed g' = dialed g @ [c]" and tg: "conn_target c = ''discovery:///'' @ n"
        and mp: "\<And>m. map_of (cf_clients f') m = (if m = n then Some c else map_of (cf_clients f) m)"
        by blast
      have n0: "map_of (cf_clients f0) n = None"
      proof (cases "map_of (cf_clients f0) n")
        case None
        then show ?thesis .
      next
        case (Some c0)
        from keep [OF this] miss show ?thesis by simp
      qed
      have d': "dialed g' = dialed g0 @ (new @ [c])" by (simp add: dg d)
      have cr': "created_for m (new @ [c]) =
              (case map_of (cf_clients f') m of
                 None \<Rightarrow> []
               | Some c \<Rightarrow> if map_of (cf_clients f0) m = None then [c] else [])" for m
        using cr [of m] miss n0 by (simp add: created_for_snoc [OF tg] mp)
      have keep': "map_of (cf_clients f') m = Some x" if "map_of (cf_clients f0) m = Some x" for m x
        using keep [OF that] that n0 by (auto simp: mp)
      have h1': "map_of (cf_clients f') m = Some x"
        if r: "Returned m (Return (Inr x)) \<in> set (cs[i := c1])" for m x
      proof -
        from mem [OF r] show ?thesis
        proof
          assume "Returned m (Return (Inr x)) = c1"
          with c1 res show ?thesis by (simp add: mp)
        next
          assume "Returned m (Return (Inr x)) \<in> set cs"
          from h1 [OF this] miss show ?thesis by (auto simp: mp)
        qed
      qed
      from d' cr' keep' h1' e show ?thesis
        unfolding cache_inv_def by (simp only: prod.case) blast
    next
      assume a: "dialed g' = dialed g \<and> cf_clients f' = cf_clients f \<and>
             (\<forall>c. res = Return (Inr c) \<longrightarrow>
                  map_of (cf_clients f) n = Some c \<and> dial_calls g' = dial_calls g)"
      have h1': "map_of (cf_clients f') m = Some x"
        if r: "Returned m (Return (Inr x)) \<in> set (cs[i := c1])" for m x
      proof -
        from mem [OF r] show ?thesis
        proof
          assume "Returned m (Return (Inr x)) = c1"
          with c1 a show ?thesis by simp
        next
          assume "Returned m (Return (Inr x)) \<in> set cs"
          from h1 [OF this] a show ?thesis by simp
        qed
      qed
      have d': "dialed g' = dialed g0 @ new" using a d by simp
      have cr': "created_for m new =
              (case map_of (cf_clients f') m of
                 None \<Rightarrow> []
               | Some c \<Rightarrow> if map_of (cf_clients f0) m = None then [c] else [])" for m
        using cr [of m] a by simp
      have keep': "map_of (cf_clients f') m = Some x" if "map_of (cf_clients f0) m = Some x" for m x
        using keep [OF that] a by simp
      from d' cr' keep' h1' e show ?thesis
        unfolding cache_inv_def by (simp only: prod.case) blast
    qed
  next
    case (Returned n res)
    with st have "c1 = cs ! i" "f1 = f" "g1 = g"
      by (simp_all add: caller_step_def)
    with inv i show ?thesis by simp
  qed
qed


lemma cache_inv_registry:
  "cache_inv f0 g0 (cs, f, g) \<Longrightarrow> cache_inv f0 g0 (cs, f\<lparr>cf_registry := x\<rparr>, g)"
  by (simp add: cache_inv_def)

lemma cache_inv_run:
  "cache_inv f0 g0 s \<Longrightarrow> cache_inv f0 g0 (run_callers I as s)"
proof (induction I as s rule: run_callers.induct)
  case (1 I s)
  then show ?case by simp
next
  case (2 I i as cs fg)
  show ?case
  proof (cases "i < length cs")
    case True
    obtain f g where fg: "fg = (f, g)" by (cases fg)
    obtain c1 f1 g1 where st: "caller_step I (cs ! i) (f, g) = (c1, f1, g1)"
      by (cases "caller_step I (cs ! i) (f, g)")
    from "2.prems" fg have "cache_inv f0 g0 (cs, f, g)" by simp
    from cache_inv_step [OF this True st] have "cache_inv f0 g0 (cs[i := c1], f1, g1)" .
    with "2.IH"(1) [OF True, of c1 "(f1, g1)"] st fg True show ?thesis by simp
  next
    case False
    with 2 show ?thesis by simp
  qed
next
  case (3 I r as cs f g)
  then show ?case by (simp add: cache_inv_registry)
qed

lemma cache_inv_initial: "cache_inv f0 g0 (map Calling ns, f0, g0)"
  by (auto simp: cache_inv_def created_for_def split: option.splits)

lemma GetClient_success:
  assumes "GetClient I n (f, g) = (Return (Inr conn), f1, g1)"
  shows "map_of (cf_clients f1) n = Some conn \<and>
         dialed g1 = dialed g @ (if map_of (cf_clients f) n = None then [conn] else []) \<and>
         dial_calls g1 = dial_calls g @ (if map_of (cf_clients f) n = None then [''discovery:///'' @ n] else [])"
proof (cases "map_of (cf_clients f) n")
  case (Some c)
  with assms show ?thesis by (simp add: GetClient_cached)
next
  case None
  with assms have w: "GetClient_write I n (f, g) = (Return (Inr conn), f1, g1)"
    by (simp add: GetClient_def GetClient_read_def)
  from GetClient_write_result [OF w] None show ?thesis by auto
qed

text \<open>
  Claim C5. When a \<^verbatim>\<open>GetClient\<close> for a name returns a connection, that connection is
  the cache entry of the name, the call has created exactly one connection (with one
  \<^verbatim>\<open>DialContext\<close>) if the name was not cached and none if it was, and every later
  \<^verbatim>\<open>GetClient\<close> for that name, on any later state of the factory in which the cache
  entry of the name is still the same, returns the same connection and changes nothing,
  whatever the registry and the gRPC library have become in between: no second creation.
  And for callers running at the same time on any factory, in any order of their critical
  sections and with any changes of the registry in between: all callers that get a
  connection for a name get the same one, it is the cache entry of that name, and the
  connections created for that name during the run are exactly that one if the name was
  not cached when the run started, and none if it was. (Nothing in a run removes a cache
  entry: \<^verbatim>\<open>Close\<close> is not among the steps.)
\<close>

theorem GetClient_singleton:
  "(GetClient I n (f, g) = (Return (Inr conn), f1, g1) \<longrightarrow>
      map_of (cf_clients f1) n = Some conn \<and>
      dialed g1 = dialed g @ (if map_of (cf_clients f) n = None then [conn] else []) \<and>
      dial_calls g1 = dial_calls g @ (if map_of (cf_clients f) n = None then [''discovery:///'' @ n] else []) \<and>
      (map_of (cf_clients f2) n = map_of (cf_clients f1) n \<longrightarrow>
         GetClient I' n (f2, g2) = (Return (Inr conn), f2, g2))) \<and>
   (run_callers I as (map Calling ns, f0, g0) = (cs, f', g') \<longrightarrow>
      (\<forall>m c c'. Returned m (Return (Inr c)) \<in> set cs \<and> Returned m (Return (Inr c')) \<in> set cs \<longrightarrow> c = c') \<and>
      (\<exists>new. dialed g' = dialed g0 @ new \<and>
         (\<forall>m c. Returned m (Return (Inr c)) \<in> set cs \<longrightarrow>
            map_of (cf_clients f') m = Some c \<and>
            created_for m new = (if map_of (cf_clients f0) m = None then [c] else []))))"
proof (intro conjI impI)
  assume a: "GetClient I n (f, g) = (Return (Inr conn), f1, g1)"
  note s = GetClient_success [OF a]
  from s show "map_of (cf_clients f1) n = Some conn" by blast
  from s show "dialed g1 = dialed g @ (if map_of (cf_clients f) n = None then [conn] else [])" by blast
  from s show "dial_calls g1 = dial_calls g @ (if map_of (cf_clients f) n = None then [''discovery:///'' @ n] else [])"
    by blast
  assume "map_of (cf_clients f2) n = map_of (cf_clients f1) n"
  with s have "map_of (cf_clients f2) n = Some conn" by simp
  then show "GetClient I' n (f2, g2) = (Return (Inr conn), f2, g2)"
    by (rule GetClient_cached)
next
  assume a: "run_callers I as (map Calling ns, f0, g0) = (cs, f', g')"
  from cache_inv_run [OF cache_inv_initial, of f0 g0 I as ns] a
  have inv: "cache_inv f0 g0 (cs, f', g')" by simp
  from inv have h: "\<And>m c. Returned m (Return (Inr c)) \<in> set cs \<Longrightarrow> map_of (cf_clients f') m = Some c"
    by (simp add: cache_inv_def)
  show "\<forall>m c c'. Returned m (Return (Inr c)) \<in> set cs \<and> Returned m (Return (Inr c')) \<in> set cs \<longrightarrow> c = c'"
  proof (intro allI impI, elim conjE)
    fix m c c'
    assume x: "Returned m (Return (Inr c)) \<in> set cs" and y: "Returned m (Return (Inr c')) \<in> set cs"
    from h [OF x] h [OF y] show "c = c'" by simp
  qed
  from inv obtain new where d: "dialed g' = dialed g0 @ new"
    and cr: "\<And>n. created_for n new =
              (case map_of (cf_clients f') n of
                 None \<Rightarrow> []
               | Some c \<Rightarrow> if map_of (cf_clients f0) n = None then [c] else [])"
    by (auto simp: cache_inv_def)
  have "map_of (cf_clients f') m = Some c \<and>
        created_for m new = (if map_of (cf_clients f0) m = None then [c] else [])"
    if r: "Returned m (Return (Inr c)) \<in> set cs" for m c
    using h [OF r] cr [of m] by simp
  with d show "\<exists>new. dialed g' = dialed g0 @ new \<and>
         (\<forall>m c. Returned m (Return (Inr c)) \<in> set cs \<longrightarrow>
            map_of (cf_clients f') m = Some c \<and>
            created_for m new = (if map_of (cf_clients f0) m = None then [c] else []))"
    by blast
qed

lemma both_connected_eq:
  "both_connected =
    (\<lparr>cf_registry = Some both_registered,
      cf_logger = [(InfoLevel, ''Created gRPC client connection''),
                   (InfoLevel, ''Created gRPC client connection'')],
      cf_clients = [(''greeter'', \<lparr>conn_id = 0, conn_target = ''discovery:///greeter''\<rparr>),
                    (''billing'', \<lparr>conn_id = 1, conn_target = ''discovery:///billing''\<rparr>)]\<rparr>,
     \<lparr>resolvers = [(''discovery'', \<lparr>b_serviceName = ''billing''\<rparr>)],
      dial_calls = [''discovery:///greeter'', ''discovery:///billing''],
      dialed = [\<lparr>conn_id = 0, conn_target = ''discovery:///greeter''\<rparr>,
                \<lparr>conn_id = 1, conn_target = ''discovery:///billing''\<rparr>],
      refused = [], closed_conns = []\<rparr>)"
  by (simp add: both_connected_def greeter_connected_eq both_registered_eq GetClient_def GetClient_read_def
      GetClient_write_def createConnection_def MockRegistry_methods_def
      MockRegistry_Discover_def mock_services_def registerResolver_def
      resolver_Register_def Scheme_def DialContext_def log_to_def Let_def)

theorem GetClient_singleton_witness:
  "GetClient MockRegistry_methods ''greeter'' (NewClientFactory (Some both_registered) [], grpc0)
     = (Return (Inr \<lparr>conn_id = 0, conn_target = ''discovery:///greeter''\<rparr>), greeter_connected) \<and>
   map_of (cf_clients (NewClientFactory (Some both_registered) [])) ''greeter'' = None \<and>
   map_of (cf_clients (fst greeter_connected)) ''greeter''
     = Some \<lparr>conn_id = 0, conn_target = ''discovery:///greeter''\<rparr> \<and>
   dialed (snd greeter_connected) = dialed grpc0 @ [\<lparr>conn_id = 0, conn_target = ''discovery:///greeter''\<rparr>] \<and>
   dial_calls (snd greeter_connected) = dial_calls grpc0 @ [''discovery:///greeter''] \<and>
   GetClient MockRegistry_methods ''greeter'' greeter_connected
     = (Return (Inr \<lparr>conn_id = 0, conn_target = ''discovery:///greeter''\<rparr>), greeter_connected) \<and>
   run_callers MockRegistry_methods [Run 0, Run 1, Run 1, Run 0]
     (map Calling [''greeter'', ''greeter''], NewClientFactory (Some both_registered) [], grpc0)
     = ([Returned ''greeter'' (Return (Inr \<lparr>conn_id = 0, conn_target = ''discovery:///greeter''\<rparr>)),
         Returned ''greeter'' (Return (Inr \<lparr>conn_id = 0, conn_target = ''discovery:///greeter''\<rparr>))],
        greeter_connected) \<and>
   created_for ''greeter'' (dialed (snd greeter_connected))
     = [\<lparr>conn_id = 0, conn_target = ''discovery:///greeter''\<rparr>] \<and>
   run_callers MockRegistry_methods [Run 1, Run 0, Run 1]
     (map Calling [''greeter'', ''billing''], greeter_connected)
     = ([Returned ''greeter'' (Return (Inr \<lparr>conn_id = 0, conn_target = ''discovery:///greeter''\<rparr>)),
         Returned ''billing'' (Return (Inr \<lparr>conn_id = 1, conn_target = ''discovery:///billing''\<rparr>))],
        both_connected) \<and>
   dialed (snd both_connected)
     = dialed (snd greeter_connected) @ [\<lparr>conn_id = 1, conn_target = ''discovery:///billing''\<rparr>] \<and>
   created_for ''greeter'' [\<lparr>conn_id = 1, conn_target = ''discovery:///billing''\<rparr>] = [] \<and>
   created_for ''billing'' [\<lparr>conn_id = 1, conn_target = ''discovery:///billing''\<rparr>]
     = [\<lparr>conn_id = 1, conn_target = ''discovery:///billing''\<rparr>]"
proof -
  let ?c = "\<lparr>conn_id = 0, conn_target = ''discovery:///greeter''\<rparr>"
  let ?b = "\<lparr>conn_id = 1, conn_target = ''discovery:///billing''\<rparr>"
  let ?f0 = "NewClientFactory (Some both_registered) []"
  have 1: "GetClient MockRegistry_methods ''greeter'' (?f0, grpc0)
     = (Return (Inr ?c), fst greeter_connected, snd greeter_connected)"
    by (simp add: greeter_connected_eq both_registered_eq GetClient_def GetClient_read_def
      GetClient_write_def createConnection_def NewClientFactory_def MockRegistry_methods_def
      MockRegistry_Discover_def mock_services_def grpc0_def registerResolver_def
      resolver_Register_def Scheme_def DialContext_def log_to_def Let_def)
  have 2: "map_of (cf_clients ?f0) ''greeter'' = None"
    by (simp add: NewClientFactory_def)
  have 3: "run_callers MockRegistry_methods [Run 0, Run 1, Run 1, Run 0]
     (map Calling [''greeter'', ''greeter''], ?f0, grpc0)
     = ([Returned ''greeter'' (Return (Inr ?c)), Returned ''greeter'' (Return (Inr ?c))],
        fst greeter_connected, snd greeter_connected)"
    by (simp add: greeter_connected_eq both_registered_eq caller_step_def GetClient_read_def
      GetClient_write_def createConnection_def NewClientFactory_def MockRegistry_methods_def
      MockRegistry_Discover_def mock_services_def grpc0_def registerResolver_def
      resolver_Register_def Scheme_def DialContext_def log_to_def Let_def)
  have 4: "run_callers MockRegistry_methods [Run 1, Run 0, Run 1]
     (map Calling [''greeter'', ''billing''], fst greeter_connected, snd greeter_connected)
     = ([Returned ''greeter'' (Return (Inr ?c)), Returned ''billing'' (Return (Inr ?b))],
        fst both_connected, snd both_connected)"
    by (simp add: both_connected_eq greeter_connected_eq both_registered_eq caller_step_def GetClient_read_def
      GetClient_write_def createConnection_def MockRegistry_methods_def
      MockRegistry_Discover_def mock_services_def registerResolver_def
      resolver_Register_def Scheme_def DialContext_def log_to_def Let_def)
  note t = GetClient_singleton [where I = MockRegistry_methods and n = "''greeter''"
      and f = ?f0 and g = grpc0 and conn = ?c
      and ?f1.0 = "fst greeter_connected" and ?g1.0 = "snd greeter_connected"
      and I' = MockRegistry_methods and ?f2.0 = "fst greeter_connected" and ?g2.0 = "snd greeter_connected"
      and as = "[Run 0, Run 1, Run 1, Run 0]" and ns = "[''greeter'', ''greeter'']"
      and ?f0.0 = ?f0 and ?g0.0 = grpc0
      and cs = "[Returned ''greeter'' (Return (Inr ?c)), Returned ''greeter'' (Return (Inr ?c))]"
      and f' = "fst greeter_connected" and g' = "snd greeter_connected"]
  from t 1 have 5: "map_of (cf_clients (fst greeter_connected)) ''greeter'' = Some ?c"
    by blast
  from t 1 2 have 6: "dialed (snd greeter_connected) = dialed grpc0 @ [?c]"
    and 7: "dial_calls (snd greeter_connected) = dial_calls grpc0 @ [''discovery:///greeter'']"
    by simp_all
  from t 1 have 8: "GetClient MockRegistry_methods ''greeter'' greeter_connected
     = (Return (Inr ?c), greeter_connected)"
    by simp
  from t 3 obtain new where n1: "dialed (snd greeter_connected) = dialed grpc0 @ new"
    and n2: "\<And>m c. Returned m (Return (Inr c))
                \<in> set [Returned ''greeter'' (Return (Inr ?c)), Returned ''greeter'' (Return (Inr ?c))]
              \<Longrightarrow> created_for m new = (if map_of (cf_clients ?f0) m = None then [c] else [])"
    by blast
  from n1 have "new = dialed (snd greeter_connected)" by (simp add: grpc0_def)
  with n2 [of "''greeter''" ?c] 2 have 9: "created_for ''greeter'' (dialed (snd greeter_connected)) = [?c]"
    by simp
  note u = GetClient_singleton [where I = MockRegistry_methods
      and as = "[Run 1, Run 0, Run 1]" and ns = "[''greeter'', ''billing'']"
      and ?f0.0 = "fst greeter_connected" and ?g0.0 = "snd greeter_connected"
      and cs = "[Returned ''greeter'' (Return (Inr ?c)), Returned ''billing'' (Return (Inr ?b))]"
      and f' = "fst both_connected" and g' = "snd both_connected", THEN conjunct2, THEN mp, OF 4]
  from u obtain new' where m1: "dialed (snd both_connected) = dialed (snd greeter_connected) @ new'"
    and m2: "\<And>m c. Returned m (Return (Inr c))
                \<in> set [Returned ''greeter'' (Return (Inr ?c)), Returned ''billing'' (Return (Inr ?b))]
              \<Longrightarrow> created_for m new' = (if map_of (cf_clients (fst greeter_connected)) m = None then [c] else [])"
    by blast
  from m1 have new': "new' = [?b]" by (simp add: both_connected_eq greeter_connected_eq)
  from m1 new' have 10: "dialed (snd both_connected) = dialed (snd greeter_connected) @ [?b]" by simp
  from m2 [of "''greeter''" ?c] new' have 11: "created_for ''greeter'' [?b] = []"
    by (simp add: greeter_connected_eq)
  from m2 [of "''billing''" ?b] new' have 12: "created_for ''billing'' [?b] = [?b]"
    by (simp add: greeter_connected_eq)
  from 1 2 3 4 5 6 7 8 9 10 11 12 show ?thesis by simp
qed

section \<open>Closing the factory\<close>

text \<open>After \<^verbatim>\<open>Close\<close> the closed connections are those that were closed before
  and every connection that was in the cache.\<close>

lemma closed_conns_Close_calls:
  "set (closed_conns (snd (Close_calls conns g))) = set (closed_conns g) \<union> conn_id ` set conns"
proof (induction conns arbitrary: g)
  case Nil
  then show ?case by simp
next
  case (Cons conn conns)
  obtain e g1 where d: "ClientConn_Close conn g = (e, g1)" by (cases "ClientConn_Close conn g")
  obtain es g2 where c: "Close_calls conns g1 = (es, g2)" by (cases "Close_calls conns g1")
  from d have g1: "set (closed_conns g1) = insert (conn_id conn) (set (closed_conns g))"
    by (auto simp: ClientConn_Close_def split: if_splits)
  from Cons [of g1] c have "set (closed_conns g2) = set (closed_conns g1) \<union> conn_id ` set conns"
    by simp
  with d c g1 show ?case by auto
qed

lemma Close_closes_every_connection:
  "set (closed_conns (snd (snd (Close (f, g))))) = set (closed_conns g) \<union> conn_id ` snd ` set (cf_clients f)"
  by (simp add: Close_def close_each_calls closed_conns_Close_calls image_image)

text \<open>
  \<^verbatim>\<open>Close\<close> on a factory whose cached connection is already closed: the failure of
  \<^verbatim>\<open>conn.Close\<close> is logged, \<^verbatim>\<open>Close\<close> returns nil and the cache is empty.
\<close>

lemma Close_connection_already_closed:
  "fst (Close greeter_closed) = None \<and>
   cf_clients (fst (snd (Close greeter_closed))) = [] \<and>
   cf_logger (fst (snd (Close greeter_closed)))
     = [(InfoLevel, ''Created gRPC client connection''),
        (ErrorLevel, ''Failed to close client connection'')]"
  by (simp add: Close_def greeter_closed_def greeter_connected_eq ClientConn_Close_def log_to_def)

end
